theory Spec2Isabelle
  imports Complex_Main "HOL-Library.AList" "HOL-Library.Multiset"
    "HOL-Library.Char_ord" "HOL-Library.List_Lexorder"
begin

section \<open>Data model\<close>

text \<open>
  The rating engine exists twice in the repository: \<^verbatim>\<open>elo_calculator.py\<close> (the one the web
  application runs) and \<^verbatim>\<open>elo.py\<close> (the command line script).  Both are embedded; the
  definitions taken from \<^verbatim>\<open>elo.py\<close> carry the suffix \<open>_elo\<close> where the two files use the
  same name.

  Python floats are modelled as exact reals plus one extra value \<open>NaN\<close>: rounding, overflow
  and the infinities of IEEE doubles are not represented.  \<open>NaN\<close> is kept because the code can
  produce it (\<^verbatim>\<open>np.mean([])\<close>) and stores it like any other rating.
\<close>

datatype pyfloat = Fin real | NaN

datatype error = KeyError string | ZeroDivisionError

text \<open>
  One row of the \<^verbatim>\<open>race_results\<close> data frame.  A missing cell (\<^verbatim>\<open>None\<close>/\<^verbatim>\<open>NaN\<close>) is \<open>None\<close>.
  The \<^verbatim>\<open>Position\<close> column is numeric; the code reads it through \<^verbatim>\<open>int(...)\<close>.
\<close>

record row =
  Driver :: "string option"
  Position :: "real option"

text \<open>
  \<^verbatim>\<open>self.ratings\<close> is a Python dict: keys are unique and iteration follows insertion order.
  It is an association list; \<open>AList.update\<close> overwrites the value of a key in place and
  appends a new key at the end, as assignment to a dict does.
\<close>

type_synonym ratings_dict = "(string \<times> pyfloat) list"

record F1EloRating =
  ratings :: ratings_dict
  initial_rating :: real
  k_factor :: real

text \<open>\<^verbatim>\<open>F1EloRating()\<close> with the default arguments.\<close>

definition init_F1EloRating :: F1EloRating where
  "init_F1EloRating = \<lparr>ratings = [], initial_rating = 1500, k_factor = 24\<rparr>"

section \<open>The rating update\<close>

text \<open>\<^verbatim>\<open>race_results.dropna(subset=['Driver', 'Position'])\<close>: the rows with both cells present,
  in their order.\<close>

fun dropna :: "row list \<Rightarrow> (string \<times> real) list" where
  "dropna [] = []"
| "dropna (r # rs) =
     (case Driver r of
        None \<Rightarrow> dropna rs
      | Some d \<Rightarrow> (case Position r of None \<Rightarrow> dropna rs | Some p \<Rightarrow> (d, p) # dropna rs))"

text \<open>\<^verbatim>\<open>int(x)\<close> on a float truncates towards zero.\<close>

definition py_int :: "real \<Rightarrow> int" where
  "py_int x = (if 0 \<le> x then \<lfloor>x\<rfloor> else \<lceil>x\<rceil>)"

text \<open>\<^verbatim>\<open>Series.unique()\<close>: the distinct values in order of first appearance.\<close>

definition unique :: "'a list \<Rightarrow> 'a list" where
  "unique xs = rev (remdups (rev xs))"

text \<open>Reading \<^verbatim>\<open>self.ratings[k]\<close> raises \<^verbatim>\<open>KeyError\<close> on a missing key.\<close>

definition getitem :: "ratings_dict \<Rightarrow> string \<Rightarrow> error + pyfloat" where
  "getitem m k = (case map_of m k of None \<Rightarrow> Inl (KeyError k) | Some v \<Rightarrow> Inr v)"

text \<open>The first loop of \<^verbatim>\<open>update_ratings\<close>: every driver not yet rated enters at the
  initial rating.\<close>

fun init_drivers :: "real \<Rightarrow> string list \<Rightarrow> ratings_dict \<Rightarrow> ratings_dict" where
  "init_drivers ir [] m = m"
| "init_drivers ir (d # ds) m =
     init_drivers ir ds (if map_of m d = None then AList.update d (Fin ir) m else m)"

text \<open>
  \<^verbatim>\<open>actual_score = 1 - (position - 1) / (total_drivers - 1)\<close> of \<^verbatim>\<open>elo_calculator.py\<close>.
  Both operands are Python ints, so a zero divisor raises.
\<close>

definition actual_score :: "int \<Rightarrow> nat \<Rightarrow> error + real" where
  "actual_score position total_drivers =
     (if int total_drivers - 1 = 0 then Inl ZeroDivisionError
      else Inr (1 - (real_of_int position - 1) / (real total_drivers - 1)))"

text \<open>\<^verbatim>\<open>normalize_race_position\<close> of \<^verbatim>\<open>elo.py\<close>: the same formula after clamping the position.\<close>

definition normalize_race_position :: "int \<Rightarrow> nat \<Rightarrow> error + real" where
  "normalize_race_position position total_drivers =
     (let position = max 1 (min position (int total_drivers)) in
      if int total_drivers - 1 = 0 then Inl ZeroDivisionError
      else Inr (1 - (real_of_int position - 1) / (real total_drivers - 1)))"

text \<open>
  Arithmetic on floats: an operation with a \<open>NaN\<close> operand yields \<open>NaN\<close>.
\<close>

fun lift2 :: "(real \<Rightarrow> real \<Rightarrow> real) \<Rightarrow> pyfloat \<Rightarrow> pyfloat \<Rightarrow> pyfloat" where
  "lift2 f (Fin a) (Fin b) = Fin (f a b)"
| "lift2 f _ _ = NaN"

text \<open>\<^verbatim>\<open>1 / (1 + 10 ** ((opp - drv) / 400))\<close>; the divisor is at least 1.\<close>

fun win_probability :: "pyfloat \<Rightarrow> pyfloat \<Rightarrow> pyfloat" where
  "win_probability (Fin ro) (Fin rd) = Fin (1 / (1 + 10 powr ((ro - rd) / 400)))"
| "win_probability _ _ = NaN"

fun fsum :: "pyfloat list \<Rightarrow> pyfloat" where
  "fsum [] = Fin 0"
| "fsum (x # xs) = lift2 (+) x (fsum xs)"

text \<open>\<^verbatim>\<open>np.mean\<close>: the mean of an empty list is \<open>NaN\<close> (numpy warns "Mean of empty slice"
  and does not raise).\<close>

definition np_mean :: "pyfloat list \<Rightarrow> pyfloat" where
  "np_mean xs = (if xs = [] then NaN else lift2 (/) (fsum xs) (Fin (real (length xs))))"

text \<open>\<^verbatim>\<open>sum(expected_scores) / len(expected_scores)\<close> of \<^verbatim>\<open>elo.py\<close>: plain Python division,
  which raises on an empty list.\<close>

definition mean_elo :: "pyfloat list \<Rightarrow> error + pyfloat" where
  "mean_elo xs =
     (if length xs = 0 then Inl ZeroDivisionError
      else Inr (lift2 (/) (fsum xs) (Fin (real (length xs)))))"

text \<open>The list comprehension of \<^verbatim>\<open>elo_calculator.py\<close> over the opponents' names: each element
  reads \<^verbatim>\<open>self.ratings[opp]\<close>, then \<^verbatim>\<open>self.ratings[driver]\<close>.\<close>

fun expected_scores :: "ratings_dict \<Rightarrow> string \<Rightarrow> string list \<Rightarrow> error + pyfloat list" where
  "expected_scores m driver [] = Inr []"
| "expected_scores m driver (opp # opps) =
     (case getitem m opp of
        Inl e \<Rightarrow> Inl e
      | Inr ro \<Rightarrow>
          (case getitem m driver of
             Inl e \<Rightarrow> Inl e
           | Inr rd \<Rightarrow>
               (case expected_scores m driver opps of
                  Inl e \<Rightarrow> Inl e
                | Inr es \<Rightarrow> Inr (win_probability ro rd # es))))"

text \<open>\<^verbatim>\<open>self.ratings.get(k, default)\<close>.\<close>

definition get_default :: "ratings_dict \<Rightarrow> string \<Rightarrow> pyfloat \<Rightarrow> pyfloat" where
  "get_default m k d = (case map_of m k of None \<Rightarrow> d | Some v \<Rightarrow> v)"

text \<open>The list comprehension of \<^verbatim>\<open>elo.py\<close>: the opponent is read with
  \<^verbatim>\<open>self.ratings.get(..., self.initial_rating)\<close>, the driver with \<^verbatim>\<open>self.ratings[driver]\<close>.\<close>

fun expected_scores_elo ::
  "real \<Rightarrow> ratings_dict \<Rightarrow> string \<Rightarrow> string list \<Rightarrow> error + pyfloat list" where
  "expected_scores_elo ir m driver [] = Inr []"
| "expected_scores_elo ir m driver (opp # opps) =
     (case getitem m driver of
        Inl e \<Rightarrow> Inl e
      | Inr rd \<Rightarrow>
          (case expected_scores_elo ir m driver opps of
             Inl e \<Rightarrow> Inl e
           | Inr es \<Rightarrow> Inr (win_probability (get_default m opp (Fin ir)) rd # es)))"

text \<open>\<^verbatim>\<open>k_factor * (actual_score - expected_score)\<close>.\<close>

definition rating_change :: "real \<Rightarrow> real \<Rightarrow> pyfloat \<Rightarrow> pyfloat" where
  "rating_change k actual expected = lift2 (*) (Fin k) (lift2 (-) (Fin actual) expected)"

text \<open>A \<^verbatim>\<open>for\<close> loop whose body may raise: the first exception ends the loop.\<close>

fun for_loop :: "('s \<Rightarrow> 'a \<Rightarrow> error + 's) \<Rightarrow> 'a list \<Rightarrow> 's \<Rightarrow> error + 's" where
  "for_loop body [] s = Inr s"
| "for_loop body (x # xs) s =
     (case body s x of Inl e \<Rightarrow> Inl e | Inr s' \<Rightarrow> for_loop body xs s')"

text \<open>
  The body of the second loop of \<^verbatim>\<open>update_ratings\<close> in \<^verbatim>\<open>elo_calculator.py\<close>, for one row
  of the cleaned frame \<open>race_results\<close>.  It reads and writes the ratings in place: \<open>m\<close> is the
  dict as the rows before this one have left it.
\<close>

definition update_row ::
  "real \<Rightarrow> (string \<times> real) list \<Rightarrow> ratings_dict \<Rightarrow> string \<times> real \<Rightarrow> error + ratings_dict" where
  "update_row k race_results m r =
     (let driver = fst r;
          position = py_int (snd r);
          opponents = filter (\<lambda>opp. fst opp \<noteq> driver) race_results
      in case actual_score position (length race_results) of
           Inl e \<Rightarrow> Inl e
         | Inr actual \<Rightarrow>
             (case expected_scores m driver (map fst opponents) of
                Inl e \<Rightarrow> Inl e
              | Inr es \<Rightarrow>
                  (case getitem m driver of
                     Inl e \<Rightarrow> Inl e
                   | Inr rd \<Rightarrow>
                       Inr (AList.update driver
                              (lift2 (+) rd (rating_change k actual (np_mean es))) m))))"

text \<open>The same loop body in \<^verbatim>\<open>elo.py\<close>.\<close>

definition update_row_elo ::
  "real \<Rightarrow> real \<Rightarrow> (string \<times> real) list \<Rightarrow> ratings_dict \<Rightarrow> string \<times> real
     \<Rightarrow> error + ratings_dict" where
  "update_row_elo k ir race_results m r =
     (let driver = fst r;
          position = py_int (snd r);
          opponents = filter (\<lambda>opp. fst opp \<noteq> driver) race_results
      in case normalize_race_position position (length race_results) of
           Inl e \<Rightarrow> Inl e
         | Inr actual \<Rightarrow>
             (case expected_scores_elo ir m driver (map fst opponents) of
                Inl e \<Rightarrow> Inl e
              | Inr es \<Rightarrow>
                  (case mean_elo es of
                     Inl e \<Rightarrow> Inl e
                   | Inr expected \<Rightarrow>
                       (case getitem m driver of
                          Inl e \<Rightarrow> Inl e
                        | Inr rd \<Rightarrow>
                            Inr (AList.update driver
                                   (lift2 (+) rd (rating_change k actual expected)) m)))))"

text \<open>\<^verbatim>\<open>F1EloRating.update_ratings\<close> of \<^verbatim>\<open>elo_calculator.py\<close>.  An exception leaves the
  method; the result is then the exception.\<close>

definition update_ratings :: "F1EloRating \<Rightarrow> row list \<Rightarrow> error + F1EloRating" where
  "update_ratings self race_results =
     (let race_results = dropna race_results in
      if length race_results < 2 then Inr self
      else
        let m = init_drivers (initial_rating self) (unique (map fst race_results)) (ratings self)
        in case for_loop (update_row (k_factor self) race_results) race_results m of
             Inl e \<Rightarrow> Inl e
           | Inr m' \<Rightarrow> Inr (self\<lparr>ratings := m'\<rparr>))"

text \<open>\<^verbatim>\<open>F1EloRating.update_ratings\<close> of \<^verbatim>\<open>elo.py\<close>.\<close>

definition update_ratings_elo :: "F1EloRating \<Rightarrow> row list \<Rightarrow> error + F1EloRating" where
  "update_ratings_elo self race_results =
     (let race_results = dropna race_results in
      if length race_results < 2 then Inr self
      else
        let m = init_drivers (initial_rating self) (unique (map fst race_results)) (ratings self)
        in case for_loop (update_row_elo (k_factor self) (initial_rating self) race_results)
                  race_results m of
             Inl e \<Rightarrow> Inl e
           | Inr m' \<Rightarrow> Inr (self\<lparr>ratings := m'\<rparr>))"

text \<open>The loop of \<^verbatim>\<open>process_historical_data\<close> over the races in chronological order.\<close>

definition process_races :: "F1EloRating \<Rightarrow> row list list \<Rightarrow> error + F1EloRating" where
  "process_races elo race_groups = for_loop update_ratings race_groups elo"

section \<open>Ranking\<close>

text \<open>
  \<^verbatim>\<open>get_driver_ratings\<close> turns the dict into a data frame, one row per key in insertion
  order, and calls \<^verbatim>\<open>sort_values('Elo Rating', ascending=False)\<close> with the library's
  defaults (\<^verbatim>\<open>kind='quicksort'\<close>, \<^verbatim>\<open>na_position='last'\<close>).  The sorting routine is library code,
  not code of the repository, so it is a parameter \<open>sort_desc\<close> of the model: it receives the
  rows whose rating is a number and returns them in the order the library puts them.  The rows
  whose rating is \<open>NaN\<close> follow, in their original order.
\<close>

fun finite_rows :: "ratings_dict \<Rightarrow> (string \<times> real) list" where
  "finite_rows [] = []"
| "finite_rows ((d, Fin r) # df) = (d, r) # finite_rows df"
| "finite_rows ((d, NaN) # df) = finite_rows df"

definition nan_rows :: "ratings_dict \<Rightarrow> ratings_dict" where
  "nan_rows df = filter (\<lambda>row. snd row = NaN) df"

definition sort_values ::
  "((string \<times> real) list \<Rightarrow> (string \<times> real) list) \<Rightarrow> ratings_dict \<Rightarrow> ratings_dict" where
  "sort_values sort_desc df = map (\<lambda>row. (fst row, Fin (snd row))) (sort_desc (finite_rows df)) @ nan_rows df"

text \<open>\<^verbatim>\<open>get_driver_ratings\<close> of \<^verbatim>\<open>elo_calculator.py\<close>.\<close>

definition get_driver_ratings ::
  "((string \<times> real) list \<Rightarrow> (string \<times> real) list) \<Rightarrow> F1EloRating \<Rightarrow> ratings_dict" where
  "get_driver_ratings sort_desc self = sort_values sort_desc (ratings self)"



text \<open>Two sorting routines that meet this contract: a stable one, which keeps rows of equal
  rating in their order, and one that reverses them.\<close>

definition stable_sort_desc :: "(string \<times> real) list \<Rightarrow> (string \<times> real) list" where
  "stable_sort_desc xs = rev (sort_key snd (rev xs))"


section \<open>The rating store\<close>

text \<open>
  The table \<^verbatim>\<open>driver_ratings (driver_name TEXT PRIMARY KEY, elo_rating REAL, last_updated TEXT)\<close>:
  a list of rows with pairwise different keys.  \<^verbatim>\<open>elo_rating\<close> holds a number or \<^verbatim>\<open>NULL\<close>;
  a \<open>NaN\<close> float is stored as \<^verbatim>\<open>NULL\<close>, so the column is a \<open>pyfloat\<close>.  A \<^verbatim>\<open>NULL\<close> in
  \<^verbatim>\<open>last_updated\<close> is \<open>None\<close>.
\<close>

type_synonym driver_ratings = "(string \<times> pyfloat \<times> string option) list"

text \<open>\<^verbatim>\<open>INSERT OR REPLACE\<close>: a row with the same primary key is deleted, then the new row is
  inserted.\<close>

definition insert_or_replace ::
  "string \<Rightarrow> pyfloat \<Rightarrow> string option \<Rightarrow> driver_ratings \<Rightarrow> driver_ratings" where
  "insert_or_replace driver_name elo updated db =
     filter (\<lambda>row. fst row \<noteq> driver_name) db @ [(driver_name, elo, updated)]"

text \<open>\<^verbatim>\<open>DatabaseManager.save_ratings\<close>.  \<open>current_time\<close> is \<^verbatim>\<open>datetime.now().isoformat()\<close>, read
  once before the loop over the rows of the data frame.\<close>

definition save_ratings :: "driver_ratings \<Rightarrow> ratings_dict \<Rightarrow> string \<Rightarrow> driver_ratings" where
  "save_ratings db ratings_df current_time =
     fold (\<lambda>row. insert_or_replace (fst row) (snd row) (Some current_time)) ratings_df db"

text \<open>\<^verbatim>\<open>DatabaseManager.get_ratings\<close>: \<^verbatim>\<open>SELECT driver_name, elo_rating ... ORDER BY elo_rating DESC\<close>.
  The order the database engine gives the rows is a parameter; both branches of the
  conditional expression build a frame of the fetched rows, empty when there are none.\<close>

definition get_ratings :: "(ratings_dict \<Rightarrow> ratings_dict) \<Rightarrow> driver_ratings \<Rightarrow> ratings_dict" where
  "get_ratings order_by db = order_by (map (\<lambda>row. (fst row, fst (snd row))) db)"

text \<open>The start of \<^verbatim>\<open>process_historical_data\<close>: stored ratings, if any, replace the dict of the
  fresh engine.\<close>

definition load_existing :: "(ratings_dict \<Rightarrow> ratings_dict) \<Rightarrow> driver_ratings \<Rightarrow> F1EloRating" where
  "load_existing order_by db =
     (let existing_ratings = get_ratings order_by db in
      if existing_ratings = [] then init_F1EloRating
      else init_F1EloRating\<lparr>ratings := existing_ratings\<rparr>)"

text \<open>
  \<^verbatim>\<open>SELECT MAX(last_updated) FROM driver_ratings\<close>.  An aggregate query without \<^verbatim>\<open>GROUP BY\<close>
  returns exactly one row; its column is the largest value that is not \<^verbatim>\<open>NULL\<close>, and \<^verbatim>\<open>NULL\<close>
  when there is none, as on an empty table.  Text is compared byte by byte.
\<close>

fun sql_max :: "string option list \<Rightarrow> string option" where
  "sql_max [] = None"
| "sql_max (None # xs) = sql_max xs"
| "sql_max (Some a # xs) = (case sql_max xs of None \<Rightarrow> Some a | Some b \<Rightarrow> Some (max a b))"

definition select_max_last_updated :: "driver_ratings \<Rightarrow> string option list list" where
  "select_max_last_updated db = [[sql_max (map (\<lambda>row. snd (snd row)) db)]]"

text \<open>\<^verbatim>\<open>cursor.fetchone()\<close>: the first row of the result, \<^verbatim>\<open>None\<close> when there is no row.\<close>

definition fetchone :: "'a list \<Rightarrow> 'a option" where
  "fetchone rows = (case rows of [] \<Rightarrow> None | r # _ \<Rightarrow> Some r)"

text \<open>
  \<^verbatim>\<open>DatabaseManager.get_last_update_time\<close>: \<^verbatim>\<open>result[0] if result else "Never"\<close>.  A tuple is
  false only when it is empty.  The value returned is a string or Python's \<^verbatim>\<open>None\<close>.
\<close>

definition get_last_update_time :: "driver_ratings \<Rightarrow> string option" where
  "get_last_update_time db =
     (case fetchone (select_max_last_updated db) of
        None \<Rightarrow> Some ''Never''
      | Some result \<Rightarrow> (case result of [] \<Rightarrow> Some ''Never'' | x # _ \<Rightarrow> x))"

section \<open>Reference formulas\<close>

text \<open>
  The rating a driver ends an event with according to step 3 of the update algorithm, as a
  function of the ratings \<open>R\<close> that are read: \<open>R d + K \<sdot> (S - E)\<close>, where \<open>S\<close> is the actual
  score of position \<open>p\<close> in a field of \<open>n\<close> and \<open>E\<close> the mean win probability against the
  opponents \<open>opps\<close>.  These definitions are not code of the repository; the theorems below
  compare the code with them.
\<close>

definition rating_in :: "ratings_dict \<Rightarrow> string \<Rightarrow> pyfloat" where
  "rating_in m k = get_default m k NaN"

definition linear_score :: "int \<Rightarrow> nat \<Rightarrow> real" where
  "linear_score p n = 1 - (real_of_int p - 1) / (real n - 1)"

definition step3_rating ::
  "real \<Rightarrow> nat \<Rightarrow> (string \<Rightarrow> pyfloat) \<Rightarrow> string \<Rightarrow> int \<Rightarrow> string list \<Rightarrow> pyfloat" where
  "step3_rating K n R d p opps =
     lift2 (+) (R d)
       (rating_change K (linear_score p n) (np_mean (map (\<lambda>opp. win_probability (R opp) (R d)) opps)))"

text \<open>The names of the other rows' drivers, as the loop body selects them.\<close>

definition opponents_of :: "string \<Rightarrow> (string \<times> real) list \<Rightarrow> string list" where
  "opponents_of d rr = map fst (filter (\<lambda>opp. fst opp \<noteq> d) rr)"

text \<open>What the row loop leaves for an event of exactly two rows \<open>(a, pa)\<close>, \<open>(b, pb)\<close>: the
  first row is rated on \<open>m\<close>, the second on \<open>m\<close> with the first row's new rating in it.\<close>

definition two_rows_result ::
  "real \<Rightarrow> ratings_dict \<Rightarrow> string \<Rightarrow> int \<Rightarrow> string \<Rightarrow> int \<Rightarrow> ratings_dict" where
  "two_rows_result K m a pa b pb =
     (let v1 = step3_rating K 2 (rating_in m) a pa [b];
          v2 = step3_rating K 2 ((rating_in m)(a := v1)) b pb [a]
      in AList.update b v2 (AList.update a v1 m))"

text \<open>No stored rating is \<open>NaN\<close>.\<close>

definition all_finite :: "ratings_dict \<Rightarrow> bool" where
  "all_finite m \<longleftrightarrow> NaN \<notin> snd ` set m"

section \<open>Example inputs\<close>

definition row_of :: "string \<Rightarrow> real \<Rightarrow> row" where
  "row_of d p = \<lparr>Driver = Some d, Position = Some p\<rparr>"

text \<open>Three classified drivers and one row without a driver name.\<close>

definition race_BAC :: "row list" where
  "race_BAC = [row_of ''B'' 2, row_of ''A'' 1, \<lparr>Driver = None, Position = Some 4\<rparr>, row_of ''C'' 3]"

text \<open>Two classified drivers, in finishing order and in the opposite row order.\<close>

definition race_AB :: "row list" where
  "race_AB = [row_of ''A'' 1, row_of ''B'' 2]"

definition race_BA :: "row list" where
  "race_BA = [row_of ''B'' 2, row_of ''A'' 1]"

text \<open>Two rows for one and the same driver.\<close>

definition race_AA :: "row list" where
  "race_AA = [row_of ''A'' 1, row_of ''A'' 2]"

text \<open>Three rows of a race; the second finisher's position is missing, so \<open>dropna\<close> keeps
  two rows, one of them with position 3.\<close>

definition race_A1_B3 :: "row list" where
  "race_A1_B3 = [row_of ''A'' 1, \<lparr>Driver = Some ''X'', Position = None\<rparr>, row_of ''B'' 3]"

text \<open>A store with two rows, and a frame of two ratings to save, one of them for a driver
  already stored.\<close>

definition store_AB :: driver_ratings where
  "store_AB = [(''A'', Fin 1500, Some ''2024-01-01T10:00:00''), (''B'', Fin 1490, Some ''2024-01-01T10:00:00'')]"

definition frame_BC :: ratings_dict where
  "frame_BC = [(''C'', Fin 1530), (''B'', Fin 1470)]"

text \<open>A season of three events: the second has a single valid row and is skipped.\<close>

definition race_D :: "row list" where
  "race_D = [row_of ''D'' 1, \<lparr>Driver = Some ''E'', Position = None\<rparr>]"

definition season :: "row list list" where
  "season = [race_AB, race_D, race_BAC]"


section \<open>Properties\<close>

subsection \<open>Dictionaries and the row loop\<close>

lemma getitem_Some: "map_of m k = Some v \<Longrightarrow> getitem m k = Inr v"
  by (simp add: getitem_def)

lemma getitem_rating_in: "k \<in> fst ` set m \<Longrightarrow> getitem m k = Inr (rating_in m k)"
proof -
  assume "k \<in> fst ` set m"
  then obtain v where "map_of m k = Some v"
    by (metis domD dom_map_of_conv_image_fst)
  then show ?thesis by (simp add: getitem_def rating_in_def get_default_def)
qed

lemma get_default_present: "k \<in> fst ` set m \<Longrightarrow> get_default m k d = rating_in m k"
proof -
  assume "k \<in> fst ` set m"
  then obtain v where "map_of m k = Some v"
    by (metis domD dom_map_of_conv_image_fst)
  then show ?thesis by (simp add: rating_in_def get_default_def)
qed

lemma keys_init_drivers: "fst ` set (init_drivers ir ds m) = fst ` set m \<union> set ds"
proof (induction ds arbitrary: m)
  case Nil
  then show ?case by simp
next
  case (Cons d ds)
  have "map_of m d \<noteq> None \<Longrightarrow> d \<in> fst ` set m"
    by (metis domIff dom_map_of_conv_image_fst)
  then show ?case using Cons by (auto simp: dom_update)
qed

lemma map_of_init_drivers:
  "map_of (init_drivers ir ds m) k =
     (if map_of m k = None \<and> k \<in> set ds then Some (Fin ir) else map_of m k)"
  by (induction ds arbitrary: m) (auto simp: update_conv')

lemma rating_in_init_drivers:
  "k \<in> set ds \<Longrightarrow> rating_in (init_drivers ir ds m) k = get_default m k (Fin ir)"
  by (simp add: rating_in_def get_default_def map_of_init_drivers split: option.splits)

lemma set_unique [simp]: "set (unique xs) = set xs"
  by (simp add: unique_def)

lemma keys_update_present: "k \<in> fst ` set m \<Longrightarrow> fst ` set (AList.update k v m) = fst ` set m"
  by (auto simp: dom_update)

lemma rating_in_update:
  "rating_in (AList.update k v m) k' = (if k' = k then v else rating_in m k')"
  by (simp add: rating_in_def get_default_def update_conv')

lemma rating_in_update_fun: "rating_in (AList.update k v m) = (rating_in m)(k := v)"
  by (rule ext) (simp add: rating_in_update)

lemma for_loop_append:
  "for_loop body (xs @ ys) s =
     (case for_loop body xs s of Inl e \<Rightarrow> Inl e | Inr s' \<Rightarrow> for_loop body ys s')"
  by (induction xs arbitrary: s) (auto split: sum.splits)

lemma expected_scores_ok:
  assumes "driver \<in> fst ` set m" and "set opps \<subseteq> fst ` set m"
  shows "expected_scores m driver opps
           = Inr (map (\<lambda>opp. win_probability (rating_in m opp) (rating_in m driver)) opps)"
  using assms by (induction opps) (simp_all add: getitem_rating_in)

lemma expected_scores_elo_ok:
  assumes "driver \<in> fst ` set m" and "set opps \<subseteq> fst ` set m"
  shows "expected_scores_elo ir m driver opps
           = Inr (map (\<lambda>opp. win_probability (rating_in m opp) (rating_in m driver)) opps)"
  using assms by (induction opps) (simp_all add: getitem_rating_in get_default_present)

lemma update_row_ok:
  assumes "fst ` set rr \<subseteq> fst ` set m" and "2 \<le> length rr" and "r \<in> set rr"
  shows "update_row K rr m r
           = Inr (AList.update (fst r)
                    (step3_rating K (length rr) (rating_in m) (fst r) (py_int (snd r))
                       (opponents_of (fst r) rr)) m)"
proof -
  have d: "fst r \<in> fst ` set m" using assms(1,3) by auto
  have o: "set (map fst (filter (\<lambda>opp. fst opp \<noteq> fst r) rr)) \<subseteq> fst ` set m"
    using assms(1) by auto
  have n: "int (length rr) - 1 \<noteq> 0" using assms(2) by simp
  show ?thesis
    unfolding update_row_def Let_def actual_score_def
    using n by (simp add: expected_scores_ok [OF d o] getitem_rating_in [OF d]
        step3_rating_def linear_score_def opponents_of_def)
qed

lemma update_row_elo_ok:
  assumes "fst ` set rr \<subseteq> fst ` set m" and "2 \<le> length rr" and "r \<in> set rr"
    and "opponents_of (fst r) rr \<noteq> []"
  shows "update_row_elo K ir rr m r
           = Inr (AList.update (fst r)
                    (step3_rating K (length rr) (rating_in m) (fst r)
                       (max 1 (min (py_int (snd r)) (int (length rr))))
                       (opponents_of (fst r) rr)) m)"
proof -
  have d: "fst r \<in> fst ` set m" using assms(1,3) by auto
  have o: "set (map fst (filter (\<lambda>opp. fst opp \<noteq> fst r) rr)) \<subseteq> fst ` set m"
    using assms(1) by auto
  have n: "int (length rr) - 1 \<noteq> 0" using assms(2) by simp
  have ne: "filter (\<lambda>opp. fst opp \<noteq> fst r) rr \<noteq> []"
    using assms(4) by (simp add: opponents_of_def)
  show ?thesis
    unfolding update_row_elo_def Let_def normalize_race_position_def
    using n ne by (simp add: expected_scores_elo_ok [OF d o] getitem_rating_in [OF d]
        step3_rating_def linear_score_def opponents_of_def mean_elo_def np_mean_def)
qed

lemma update_row_elo_empty:
  assumes "fst ` set rr \<subseteq> fst ` set m" and "2 \<le> length rr" and "r \<in> set rr"
    and "opponents_of (fst r) rr = []"
  shows "update_row_elo K ir rr m r = Inl ZeroDivisionError"
proof -
  have n: "int (length rr) - 1 \<noteq> 0" using assms(2) by simp
  have e: "filter (\<lambda>opp. fst opp \<noteq> fst r) rr = []"
    using assms(4) by (simp add: opponents_of_def)
  show ?thesis
    unfolding update_row_elo_def Let_def normalize_race_position_def
    using n by (simp add: e mean_elo_def)
qed

text \<open>
  The row loop on a dict that holds every driver of the event: it never raises, keeps the
  keys and their order, and leaves the drivers of no remaining row alone.
\<close>

lemma for_loop_rows:
  assumes "fst ` set rr \<subseteq> fst ` set m" and "2 \<le> length rr" and "set rows \<subseteq> set rr"
  shows "\<exists>m'. for_loop (update_row K rr) rows m = Inr m' \<and> fst ` set m' = fst ` set m
           \<and> map fst m' = map fst m
           \<and> (\<forall>k. k \<notin> fst ` set rows \<longrightarrow> rating_in m' k = rating_in m k)"
  using assms
proof (induction rows arbitrary: m)
  case Nil
  then show ?case by simp
next
  case (Cons r rows)
  let ?m1 = "AList.update (fst r)
               (step3_rating K (length rr) (rating_in m) (fst r) (py_int (snd r))
                  (opponents_of (fst r) rr)) m"
  have r: "r \<in> set rr" using Cons.prems(3) by simp
  have step: "update_row K rr m r = Inr ?m1"
    by (rule update_row_ok [OF Cons.prems(1,2) r])
  have d: "fst r \<in> fst ` set m" using Cons.prems(1) r by auto
  have k1: "fst ` set ?m1 = fst ` set m" by (rule keys_update_present [OF d])
  have k2: "map fst ?m1 = map fst m" using d by (simp add: update_keys)
  obtain m' where m': "for_loop (update_row K rr) rows ?m1 = Inr m'"
      "fst ` set m' = fst ` set ?m1" "map fst m' = map fst ?m1"
      "\<forall>k. k \<notin> fst ` set rows \<longrightarrow> rating_in m' k = rating_in ?m1 k"
    using Cons.IH [of ?m1] Cons.prems k1 by auto
  show ?case using step m' k1 k2 by (auto simp: rating_in_update)
qed

lemma step3_rating_cong:
  assumes "R d = R' d" and "\<And>k. k \<in> set opps \<Longrightarrow> R k = R' k"
  shows "step3_rating K n R d p opps = step3_rating K n R' d p opps"
proof -
  have eq: "map (\<lambda>opp. win_probability (R opp) (R' d)) opps
          = map (\<lambda>opp. win_probability (R' opp) (R' d)) opps"
    using assms(2) by simp
  show ?thesis unfolding step3_rating_def by (simp only: assms(1) eq)
qed

lemma update_ratings_unfold:
  assumes "2 \<le> length (dropna ev)"
  shows "update_ratings self ev =
     (case for_loop (update_row (k_factor self) (dropna ev)) (dropna ev)
             (init_drivers (initial_rating self) (unique (map fst (dropna ev))) (ratings self)) of
        Inl e \<Rightarrow> Inl e
      | Inr m' \<Rightarrow> Inr (self\<lparr>ratings := m'\<rparr>))"
  using assms by (simp add: update_ratings_def Let_def)

lemma update_ratings_elo_unfold:
  assumes "2 \<le> length (dropna ev)"
  shows "update_ratings_elo self ev =
     (case for_loop (update_row_elo (k_factor self) (initial_rating self) (dropna ev)) (dropna ev)
             (init_drivers (initial_rating self) (unique (map fst (dropna ev))) (ratings self)) of
        Inl e \<Rightarrow> Inl e
      | Inr m' \<Rightarrow> Inr (self\<lparr>ratings := m'\<rparr>))"
  using assms by (simp add: update_ratings_elo_def Let_def)

lemma py_int_numeral [simp]: "py_int (numeral k) = numeral k" "py_int 1 = 1" "py_int 0 = 0"
  by (simp_all add: py_int_def)

subsection \<open>Events of two rows\<close>

lemma dropna_two: "dropna [row_of a pa, row_of b pb] = [(a, pa), (b, pb)]"
  by (simp add: row_of_def)

lemma two_rows_loop:
  assumes ab: "a \<noteq> b" and keys: "{a, b} \<subseteq> fst ` set m"
  shows "for_loop (update_row K [(a, pa), (b, pb)]) [(a, pa), (b, pb)] m
           = Inr (two_rows_result K m a (py_int pa) b (py_int pb))"
proof -
  define rr where "rr = [(a, pa), (b, pb)]"
  define v1 where "v1 = step3_rating K 2 (rating_in m) a (py_int pa) [b]"
  define m1 where "m1 = AList.update a v1 m"
  define v2 where "v2 = step3_rating K 2 (rating_in m1) b (py_int pb) [a]"
  define m2 where "m2 = AList.update b v2 m1"
  have len: "2 \<le> length rr" and n: "length rr = 2" by (simp_all add: rr_def)
  have k0: "fst ` set rr \<subseteq> fst ` set m" using keys by (simp add: rr_def)
  have k1: "fst ` set rr \<subseteq> fst ` set m1" using k0 by (auto simp: m1_def dom_update)
  have oa: "opponents_of a rr = [b]" and ob: "opponents_of b rr = [a]"
    using ab by (auto simp: opponents_of_def rr_def)
  have s1: "update_row K rr m (a, pa) = Inr m1"
    using update_row_ok [OF k0 len, of "(a, pa)" K] by (simp add: rr_def [symmetric] oa n m1_def v1_def)
      (simp add: rr_def)
  have s2: "update_row K rr m1 (b, pb) = Inr m2"
    using update_row_ok [OF k1 len, of "(b, pb)" K] by (simp add: ob n m2_def v2_def)
      (simp add: rr_def)
  have loop: "for_loop (update_row K rr) rr m = Inr m2"
    by (subst (2) rr_def) (simp add: s1 s2)
  have "m2 = two_rows_result K m a (py_int pa) b (py_int pb)"
    by (simp add: two_rows_result_def Let_def m2_def v2_def m1_def v1_def rating_in_update_fun)
  then show ?thesis using loop by (simp add: rr_def)
qed

lemma two_rows_loop_elo:
  assumes ab: "a \<noteq> b" and keys: "{a, b} \<subseteq> fst ` set m"
  shows "for_loop (update_row_elo K ir [(a, pa), (b, pb)]) [(a, pa), (b, pb)] m
           = Inr (two_rows_result K m a (max 1 (min (py_int pa) 2)) b (max 1 (min (py_int pb) 2)))"
proof -
  define rr where "rr = [(a, pa), (b, pb)]"
  define v1 where "v1 = step3_rating K 2 (rating_in m) a (max 1 (min (py_int pa) 2)) [b]"
  define m1 where "m1 = AList.update a v1 m"
  define v2 where "v2 = step3_rating K 2 (rating_in m1) b (max 1 (min (py_int pb) 2)) [a]"
  define m2 where "m2 = AList.update b v2 m1"
  have len: "2 \<le> length rr" and n: "length rr = 2" by (simp_all add: rr_def)
  have k0: "fst ` set rr \<subseteq> fst ` set m" using keys by (simp add: rr_def)
  have k1: "fst ` set rr \<subseteq> fst ` set m1" using k0 by (auto simp: m1_def dom_update)
  have oa: "opponents_of a rr = [b]" and ob: "opponents_of b rr = [a]"
    using ab by (auto simp: opponents_of_def rr_def)
  have s1: "update_row_elo K ir rr m (a, pa) = Inr m1"
    using update_row_elo_ok [OF k0 len, of "(a, pa)" K ir] by (simp add: oa n m1_def v1_def)
      (simp add: rr_def)
  have s2: "update_row_elo K ir rr m1 (b, pb) = Inr m2"
    using update_row_elo_ok [OF k1 len, of "(b, pb)" K ir] by (simp add: ob n m2_def v2_def)
      (simp add: rr_def)
  have loop: "for_loop (update_row_elo K ir rr) rr m = Inr m2"
    by (subst (2) rr_def) (simp add: s1 s2)
  have "m2 = two_rows_result K m a (max 1 (min (py_int pa) 2)) b (max 1 (min (py_int pb) 2))"
    by (simp add: two_rows_result_def Let_def m2_def v2_def m1_def v1_def rating_in_update_fun)
  then show ?thesis using loop by (simp add: rr_def)
qed

lemma rating_in_two_rows_result:
  assumes "a \<noteq> b"
  shows "rating_in (two_rows_result K m a pa b pb) a = step3_rating K 2 (rating_in m) a pa [b]"
    and "rating_in (two_rows_result K m a pa b pb) b
           = step3_rating K 2 ((rating_in m)(a := step3_rating K 2 (rating_in m) a pa [b])) b pb [a]"
  using assms by (simp_all add: two_rows_result_def Let_def rating_in_update)

lemma step3_first_of_two:
  assumes "R a = Fin r" and "R b = Fin r"
  shows "step3_rating K 2 R a 1 [b] = Fin (r + K / 2)"
    and "step3_rating K 2 R a 2 [b] = Fin (r - K / 2)"
  using assms
  by (simp_all add: step3_rating_def linear_score_def np_mean_def rating_change_def)

lemma step3_second_of_two:
  assumes "a \<noteq> b" and "R a = Fin r"
  shows "step3_rating K 2 (R(b := Fin (r + K / 2))) a 2 [b] = Fin (r - K / (1 + 10 powr (K / 800)))"
    and "step3_rating K 2 (R(b := Fin (r - K / 2))) a 1 [b]
           = Fin (r + K * (1 - 1 / (1 + 10 powr (- (K / 800)))))"
  using assms
  by (simp_all add: step3_rating_def linear_score_def np_mean_def rating_change_def)

lemma half_less_inverse:
  fixes y :: real
  assumes "0 < y" and "y < 1"
  shows "1 / 2 < 1 / (1 + y)"
  using assms by (simp add: field_simps)

lemma second_delta_smaller:
  fixes K :: real
  assumes "0 < K"
  shows "K / (1 + 10 powr (K / 800)) < K / 2"
    and "K * (1 - 1 / (1 + 10 powr (- (K / 800)))) < K / 2"
proof -
  have big: "1 < (10::real) powr (K / 800)" using assms by simp
  then have "1 / (1 + (10::real) powr (K / 800)) < 1 / 2"
    by (simp add: field_simps)
  then have "K * (1 / (1 + 10 powr (K / 800))) < K * (1 / 2)"
    using assms by (rule mult_strict_left_mono)
  then show "K / (1 + 10 powr (K / 800)) < K / 2" by simp
  have "(10::real) powr (- (K / 800)) = 1 / 10 powr (K / 800)"
    by (rule powr_minus_divide)
  with big have "(10::real) powr (- (K / 800)) < 1" by simp
  moreover have "0 < (10::real) powr (- (K / 800))" by simp
  ultimately have "1 / 2 < 1 / (1 + (10::real) powr (- (K / 800)))"
    by (intro half_less_inverse)
  then have "1 - 1 / (1 + (10::real) powr (- (K / 800))) < 1 / 2" by simp
  then have "K * (1 - 1 / (1 + 10 powr (- (K / 800)))) < K * (1 / 2)"
    using assms by (rule mult_strict_left_mono)
  then show "K * (1 - 1 / (1 + 10 powr (- (K / 800)))) < K / 2" by simp
qed

lemmas eval_defs = update_ratings_def update_row_def actual_score_def getitem_def
  np_mean_def rating_change_def unique_def row_of_def init_F1EloRating_def Let_def
  update_ratings_elo_def update_row_elo_def normalize_race_position_def mean_elo_def
  get_default_def race_AB_def race_BA_def

lemma dropna_race_AB: "dropna race_AB = [(''A'', 1), (''B'', 2)]"
  by (simp add: race_AB_def row_of_def)

lemma race_AB_result:
  "update_ratings init_F1EloRating race_AB
     = Inr \<lparr>ratings = [(''A'', Fin 1512), (''B'', Fin (1500 - 24 / (1 + 10 powr (3 / 100))))],
            initial_rating = 1500, k_factor = 24\<rparr>"
  by (simp add: eval_defs)

lemma race_AB_result_elo:
  "update_ratings_elo init_F1EloRating race_AB
     = Inr \<lparr>ratings = [(''A'', Fin 1512), (''B'', Fin (1500 - 24 / (1 + 10 powr (3 / 100))))],
            initial_rating = 1500, k_factor = 24\<rparr>"
  by (simp add: eval_defs)

lemma race_BA_result:
  "update_ratings init_F1EloRating race_BA
     = Inr \<lparr>ratings = [(''B'', Fin 1488),
                       (''A'', Fin (1500 + 24 * (1 - 1 / (1 + 10 powr (- (3 / 100))))))],
            initial_rating = 1500, k_factor = 24\<rparr>"
  by (simp add: eval_defs)

lemma race_BA_result_elo:
  "update_ratings_elo init_F1EloRating race_BA
     = Inr \<lparr>ratings = [(''B'', Fin 1488),
                       (''A'', Fin (1500 + 24 * (1 - 1 / (1 + 10 powr (- (3 / 100))))))],
            initial_rating = 1500, k_factor = 24\<rparr>"
  by (simp add: eval_defs)

lemma loser_above_1488: "(1488::real) < 1500 - 24 / (1 + 10 powr (3 / 100))"
  using second_delta_smaller(1) [of 24] by simp

lemma winner_below_1512: "1500 + 24 * (1 - 1 / (1 + 10 powr (- (3 / 100)))) < (1512::real)"
  using second_delta_smaller(2) [of 24] by simp

subsection \<open>Which ratings a row is rated on\<close>

text \<open>
  Claim C1, as the code has it.  Let an event keep at least two rows after \<open>dropna\<close>, with
  pairwise distinct drivers.  Then \<open>update_ratings\<close> succeeds, and the rating it leaves for the
  driver of row \<open>i\<close> is the step 3 formula evaluated on the ratings stored at the moment that
  row is processed: for the drivers of the rows before \<open>i\<close> these are their final, already
  updated ratings; for every other driver (the driver of row \<open>i\<close> and those of later rows)
  they are the ratings from before the event, new drivers at the initial rating.  Only the
  first row is rated on the pre-event snapshot alone.
\<close>

theorem update_reads_current_ratings:
  assumes len: "2 \<le> length (dropna ev)"
    and dist: "distinct (map fst (dropna ev))"
    and i: "i < length (dropna ev)"
  shows "\<exists>self'. update_ratings self ev = Inr self'
           \<and> rating_in (ratings self') (fst (dropna ev ! i)) =
               step3_rating (k_factor self) (length (dropna ev))
                 (\<lambda>k. if k \<in> fst ` set (take i (dropna ev)) then rating_in (ratings self') k
                      else rating_in (init_drivers (initial_rating self)
                                        (unique (map fst (dropna ev))) (ratings self)) k)
                 (fst (dropna ev ! i)) (py_int (snd (dropna ev ! i)))
                 (opponents_of (fst (dropna ev ! i)) (dropna ev))"
proof -
  define rr where "rr = dropna ev"
  define K where "K = k_factor self"
  define m0 where "m0 = init_drivers (initial_rating self) (unique (map fst rr)) (ratings self)"
  define pre where "pre = take i rr"
  define post where "post = drop (Suc i) rr"
  define r where "r = rr ! i"
  define d where "d = fst r"
  have n2: "2 \<le> length rr" using len by (simp add: rr_def)
  have split: "rr = pre @ r # post"
    using i by (simp add: pre_def post_def r_def rr_def id_take_nth_drop)
  have keys0: "fst ` set rr \<subseteq> fst ` set m0"
    by (auto simp: m0_def keys_init_drivers)
  have dist': "distinct (map fst pre @ d # map fst post)"
    using dist split by (simp add: rr_def d_def)
  have d_pre: "d \<notin> fst ` set pre" and d_post: "d \<notin> fst ` set post"
    and disj: "fst ` set pre \<inter> fst ` set post = {}"
    using dist' by auto
  have pre_sub: "set pre \<subseteq> set rr" and post_sub: "set post \<subseteq> set rr" and r_in: "r \<in> set rr"
    using split by (metis Un_upper1 set_append, metis set_subset_Cons Un_upper2 set_append subset_trans,
        metis in_set_conv_decomp)
  obtain m1 where m1: "for_loop (update_row K rr) pre m0 = Inr m1" "fst ` set m1 = fst ` set m0"
      "\<forall>k. k \<notin> fst ` set pre \<longrightarrow> rating_in m1 k = rating_in m0 k"
    using for_loop_rows [OF keys0 n2 pre_sub, of K] by blast
  have keys1: "fst ` set rr \<subseteq> fst ` set m1" using keys0 m1(2) by simp
  define v where "v = step3_rating K (length rr) (rating_in m1) d (py_int (snd r)) (opponents_of d rr)"
  define m2 where "m2 = AList.update d v m1"
  have step: "update_row K rr m1 r = Inr m2"
    using update_row_ok [OF keys1 n2 r_in, of K] by (simp add: m2_def v_def d_def)
  have keys2: "fst ` set rr \<subseteq> fst ` set m2"
    using keys1 by (auto simp: m2_def dom_update)
  obtain m' where m': "for_loop (update_row K rr) post m2 = Inr m'"
      "\<forall>k. k \<notin> fst ` set post \<longrightarrow> rating_in m' k = rating_in m2 k"
    using for_loop_rows [OF keys2 n2 post_sub, of K] by blast
  have loop: "for_loop (update_row K rr) rr m0 = Inr m'"
    by (subst split) (simp add: for_loop_append m1(1) step m'(1))
  have res: "update_ratings self ev = Inr (self\<lparr>ratings := m'\<rparr>)"
    using loop by (simp add: update_ratings_unfold [OF len] rr_def [symmetric] K_def [symmetric]
        m0_def [symmetric])
  have fin_d: "rating_in m' d = v"
    using m'(2) d_post by (simp add: m2_def rating_in_update)
  let ?R = "\<lambda>k. if k \<in> fst ` set pre then rating_in m' k else rating_in m0 k"
  have Rd: "rating_in m1 d = ?R d"
    using d_pre m1(3) by simp
  have Ro: "rating_in m1 k = ?R k" if "k \<in> set (opponents_of d rr)" for k
  proof (cases "k \<in> fst ` set pre")
    case True
    then have "k \<notin> fst ` set post" and "k \<noteq> d" using disj d_pre by auto
    then have "rating_in m' k = rating_in m1 k"
      using m'(2) by (simp add: m2_def rating_in_update)
    then show ?thesis using True by simp
  next
    case False
    then show ?thesis using m1(3) by simp
  qed
  have "v = step3_rating K (length rr) ?R d (py_int (snd r)) (opponents_of d rr)"
    unfolding v_def
    by (rule step3_rating_cong [where R = "rating_in m1" and R' = ?R]) (simp_all only: Rd Ro)
  moreover have sel: "ratings (self\<lparr>ratings := m'\<rparr>) = m'" by simp
  ultimately have fin: "rating_in (ratings (self\<lparr>ratings := m'\<rparr>)) d =
      step3_rating K (length rr)
        (\<lambda>k. if k \<in> fst ` set pre then rating_in (ratings (self\<lparr>ratings := m'\<rparr>)) k
             else rating_in m0 k)
        d (py_int (snd r)) (opponents_of d rr)"
    unfolding sel using fin_d by simp
  show ?thesis
    unfolding rr_def [symmetric] K_def [symmetric] m0_def [symmetric] pre_def [symmetric]
      r_def [symmetric] d_def [symmetric]
    using res fin by (intro exI [of _ "self\<lparr>ratings := m'\<rparr>"] conjI)
qed

text \<open>
  The hypotheses of the theorem for claim C1 hold for the event \<open>race_AB\<close> and its second row.
\<close>

theorem update_reads_current_ratings_witness:
  "2 \<le> length (dropna race_AB) \<and> distinct (map fst (dropna race_AB)) \<and> 1 < length (dropna race_AB)
   \<and> dropna race_AB ! 1 = (''B'', 2)
   \<and> (\<exists>self'. update_ratings init_F1EloRating race_AB = Inr self'
         \<and> rating_in (ratings self') (fst (dropna race_AB ! 1)) =
             step3_rating (k_factor init_F1EloRating) (length (dropna race_AB))
               (\<lambda>k. if k \<in> fst ` set (take 1 (dropna race_AB)) then rating_in (ratings self') k
                    else rating_in (init_drivers (initial_rating init_F1EloRating)
                                      (unique (map fst (dropna race_AB)))
                                      (ratings init_F1EloRating)) k)
               (fst (dropna race_AB ! 1)) (py_int (snd (dropna race_AB ! 1)))
               (opponents_of (fst (dropna race_AB ! 1)) (dropna race_AB)))"
proof -
  have h1: "2 \<le> length (dropna race_AB)" by (simp add: dropna_race_AB)
  have h2: "distinct (map fst (dropna race_AB))" by (simp add: dropna_race_AB)
  have h3: "1 < length (dropna race_AB)" by (simp add: dropna_race_AB)
  have h4: "dropna race_AB ! 1 = (''B'', 2)" by (simp add: dropna_race_AB)
  show ?thesis
    using update_reads_current_ratings [OF h1 h2 h3, of init_F1EloRating] h1 h2 h3 h4
    by (intro conjI)
qed

text \<open>
  Claim C1 as stated fails.  The same two records, from the same empty snapshot, in the two
  possible row orders: the winner ends at exactly 1512 when its row comes first and strictly
  below 1512 when it comes second; the loser ends at exactly 1488 when its row comes first and
  strictly above 1488 when it comes second.  The result depends on the processing order, and
  the second row is not rated on the pre-event snapshot.
\<close>

theorem update_order_dependent:
  "mset race_BA = mset race_AB
   \<and> update_ratings init_F1EloRating race_AB
       = Inr \<lparr>ratings = [(''A'', Fin 1512), (''B'', Fin (1500 - 24 / (1 + 10 powr (3 / 100))))],
              initial_rating = 1500, k_factor = 24\<rparr>
   \<and> update_ratings init_F1EloRating race_BA
       = Inr \<lparr>ratings = [(''B'', Fin 1488),
                         (''A'', Fin (1500 + 24 * (1 - 1 / (1 + 10 powr (- (3 / 100))))))],
              initial_rating = 1500, k_factor = 24\<rparr>
   \<and> 1500 + 24 * (1 - 1 / (1 + 10 powr (- (3 / 100)))) < (1512::real)
   \<and> (1488::real) < 1500 - 24 / (1 + 10 powr (3 / 100))"
  using race_AB_result race_BA_result winner_below_1512 loser_above_1488
  by (simp add: race_AB_def race_BA_def)

subsection \<open>Two equally rated competitors\<close>

lemma two_equal_first_order:
  assumes ab: "a \<noteq> b"
    and ra: "get_default (ratings self) a (Fin (initial_rating self)) = Fin r"
    and rb: "get_default (ratings self) b (Fin (initial_rating self)) = Fin r"
  shows "\<exists>self'. update_ratings self [row_of a 1, row_of b 2] = Inr self'
           \<and> update_ratings_elo self [row_of a 1, row_of b 2] = Inr self'
           \<and> rating_in (ratings self') a = Fin (r + k_factor self / 2)
           \<and> rating_in (ratings self') b
               = Fin (r - k_factor self / (1 + 10 powr (k_factor self / 800)))"
proof -
  define K where "K = k_factor self"
  define ir where "ir = initial_rating self"
  define m0 where "m0 = init_drivers ir (unique (map fst [(a, 1::real), (b, 2)])) (ratings self)"
  define m' where "m' = two_rows_result K m0 a 1 b 2"
  have keys: "{a, b} \<subseteq> fst ` set m0"
    by (auto simp: m0_def keys_init_drivers)
  have r0: "rating_in m0 a = Fin r" "rating_in m0 b = Fin r"
    using ra rb by (simp_all add: m0_def rating_in_init_drivers ir_def)
  have l1: "for_loop (update_row K [(a, 1), (b, 2)]) [(a, 1), (b, 2)] m0 = Inr m'"
    using two_rows_loop [OF ab keys, of K 1 2] by (simp add: m'_def)
  have l2: "for_loop (update_row_elo K ir [(a, 1), (b, 2)]) [(a, 1), (b, 2)] m0 = Inr m'"
    using two_rows_loop_elo [OF ab keys, of K ir 1 2] by (simp add: m'_def)
  have len: "2 \<le> length (dropna [row_of a 1, row_of b 2])" by (simp only: dropna_two) simp
  have u1: "update_ratings self [row_of a 1, row_of b 2] = Inr (self\<lparr>ratings := m'\<rparr>)"
    unfolding update_ratings_unfold [OF len]
    by (simp only: dropna_two K_def [symmetric] ir_def [symmetric] m0_def [symmetric] l1 sum.case)
  have u2: "update_ratings_elo self [row_of a 1, row_of b 2] = Inr (self\<lparr>ratings := m'\<rparr>)"
    unfolding update_ratings_elo_unfold [OF len]
    by (simp only: dropna_two K_def [symmetric] ir_def [symmetric] m0_def [symmetric] l2 sum.case)
  have va: "rating_in m' a = Fin (r + K / 2)"
    by (simp add: m'_def rating_in_two_rows_result(1) [OF ab] step3_first_of_two(1) [OF r0])
  have vb: "rating_in m' b = Fin (r - K / (1 + 10 powr (K / 800)))"
    using ab
    by (simp add: m'_def rating_in_two_rows_result(2) [OF ab] step3_first_of_two(1) [OF r0]
        step3_second_of_two(1) r0)
  show ?thesis
    using u1 u2 va vb unfolding K_def by simp
qed

lemma two_equal_second_order:
  assumes ab: "a \<noteq> b"
    and ra: "get_default (ratings self) a (Fin (initial_rating self)) = Fin r"
    and rb: "get_default (ratings self) b (Fin (initial_rating self)) = Fin r"
  shows "\<exists>self'. update_ratings self [row_of b 2, row_of a 1] = Inr self'
           \<and> update_ratings_elo self [row_of b 2, row_of a 1] = Inr self'
           \<and> rating_in (ratings self') b = Fin (r - k_factor self / 2)
           \<and> rating_in (ratings self') a
               = Fin (r + k_factor self * (1 - 1 / (1 + 10 powr (- (k_factor self / 800)))))"
proof -
  define K where "K = k_factor self"
  define ir where "ir = initial_rating self"
  define m0 where "m0 = init_drivers ir (unique (map fst [(b, 2::real), (a, 1)])) (ratings self)"
  define m' where "m' = two_rows_result K m0 b 2 a 1"
  have ba: "b \<noteq> a" using ab by simp
  have keys: "{b, a} \<subseteq> fst ` set m0"
    by (auto simp: m0_def keys_init_drivers)
  have r0: "rating_in m0 b = Fin r" "rating_in m0 a = Fin r"
    using ra rb by (simp_all add: m0_def rating_in_init_drivers ir_def)
  have l1: "for_loop (update_row K [(b, 2), (a, 1)]) [(b, 2), (a, 1)] m0 = Inr m'"
    using two_rows_loop [OF ba keys, of K 2 1] by (simp add: m'_def)
  have l2: "for_loop (update_row_elo K ir [(b, 2), (a, 1)]) [(b, 2), (a, 1)] m0 = Inr m'"
    using two_rows_loop_elo [OF ba keys, of K ir 2 1] by (simp add: m'_def)
  have len: "2 \<le> length (dropna [row_of b 2, row_of a 1])" by (simp only: dropna_two) simp
  have u1: "update_ratings self [row_of b 2, row_of a 1] = Inr (self\<lparr>ratings := m'\<rparr>)"
    unfolding update_ratings_unfold [OF len]
    by (simp only: dropna_two K_def [symmetric] ir_def [symmetric] m0_def [symmetric] l1 sum.case)
  have u2: "update_ratings_elo self [row_of b 2, row_of a 1] = Inr (self\<lparr>ratings := m'\<rparr>)"
    unfolding update_ratings_elo_unfold [OF len]
    by (simp only: dropna_two K_def [symmetric] ir_def [symmetric] m0_def [symmetric] l2 sum.case)
  have vb: "rating_in m' b = Fin (r - K / 2)"
    by (simp add: m'_def rating_in_two_rows_result(1) [OF ba] step3_first_of_two(2) [OF r0])
  have va: "rating_in m' a = Fin (r + K * (1 - 1 / (1 + 10 powr (- (K / 800)))))"
    using ab
    by (simp add: m'_def rating_in_two_rows_result(2) [OF ba] step3_first_of_two(2) [OF r0]
        step3_second_of_two(2) r0)
  show ?thesis
    using u1 u2 va vb unfolding K_def by simp
qed

text \<open>
  Claim C2, as the code has it.  Two different competitors \<open>a\<close> and \<open>b\<close> enter a two row event
  with the same rating \<open>r\<close> (already stored, or absent and \<open>r\<close> the initial rating), \<open>a\<close>
  finishing first and \<open>b\<close> second.  Both implementations agree.  The competitor whose row is
  processed first moves by exactly \<open>K / 2\<close>: up to \<open>r + K / 2\<close> for the winner, down to
  \<open>r - K / 2\<close> for the loser.  The other competitor is rated against that already updated
  rating: the loser processed second ends at \<open>r - K / (1 + 10 powr (K / 800))\<close>, the winner
  processed second at \<open>r + K * (1 - 1 / (1 + 10 powr (- K / 800)))\<close>; for \<open>K > 0\<close> both of
  these moves are strictly smaller than \<open>K / 2\<close>.
\<close>

theorem two_equal_competitors:
  assumes "a \<noteq> b"
    and "get_default (ratings self) a (Fin (initial_rating self)) = Fin r"
    and "get_default (ratings self) b (Fin (initial_rating self)) = Fin r"
  shows "(\<exists>self'. update_ratings self [row_of a 1, row_of b 2] = Inr self'
           \<and> update_ratings_elo self [row_of a 1, row_of b 2] = Inr self'
           \<and> rating_in (ratings self') a = Fin (r + k_factor self / 2)
           \<and> rating_in (ratings self') b
               = Fin (r - k_factor self / (1 + 10 powr (k_factor self / 800))))
       \<and> (\<exists>self'. update_ratings self [row_of b 2, row_of a 1] = Inr self'
           \<and> update_ratings_elo self [row_of b 2, row_of a 1] = Inr self'
           \<and> rating_in (ratings self') b = Fin (r - k_factor self / 2)
           \<and> rating_in (ratings self') a
               = Fin (r + k_factor self * (1 - 1 / (1 + 10 powr (- (k_factor self / 800))))))
       \<and> (0 < k_factor self \<longrightarrow>
             k_factor self / (1 + 10 powr (k_factor self / 800)) < k_factor self / 2
           \<and> k_factor self * (1 - 1 / (1 + 10 powr (- (k_factor self / 800)))) < k_factor self / 2)"
  using two_equal_first_order [OF assms] two_equal_second_order [OF assms]
    second_delta_smaller [of "k_factor self"]
  by blast

text \<open>
  The hypotheses of the theorem for claim C2 hold for the drivers A and B and the default
  engine; the ratings are then 1512 and \<open>1500 - 24 / (1 + 10 powr (3 / 100))\<close>.
\<close>

theorem two_equal_competitors_witness:
  "''A'' \<noteq> ''B''
   \<and> get_default (ratings init_F1EloRating) ''A'' (Fin (initial_rating init_F1EloRating)) = Fin 1500
   \<and> get_default (ratings init_F1EloRating) ''B'' (Fin (initial_rating init_F1EloRating)) = Fin 1500
   \<and> (\<exists>self'. update_ratings init_F1EloRating [row_of ''A'' 1, row_of ''B'' 2] = Inr self'
         \<and> update_ratings_elo init_F1EloRating [row_of ''A'' 1, row_of ''B'' 2] = Inr self'
         \<and> rating_in (ratings self') ''A'' = Fin 1512
         \<and> rating_in (ratings self') ''B'' = Fin (1500 - 24 / (1 + 10 powr (3 / 100))))
   \<and> (\<exists>self'. update_ratings init_F1EloRating [row_of ''B'' 2, row_of ''A'' 1] = Inr self'
         \<and> update_ratings_elo init_F1EloRating [row_of ''B'' 2, row_of ''A'' 1] = Inr self'
         \<and> rating_in (ratings self') ''B'' = Fin 1488
         \<and> rating_in (ratings self') ''A'' = Fin (1500 + 24 * (1 - 1 / (1 + 10 powr (- (3 / 100))))))"
proof -
  have h1: "''A'' \<noteq> ''B''" by simp
  have h2: "get_default (ratings init_F1EloRating) ''A'' (Fin (initial_rating init_F1EloRating))
              = Fin 1500"
    by (simp add: get_default_def init_F1EloRating_def)
  have h3: "get_default (ratings init_F1EloRating) ''B'' (Fin (initial_rating init_F1EloRating))
              = Fin 1500"
    by (simp add: get_default_def init_F1EloRating_def)
  have k: "k_factor init_F1EloRating = 24" by (simp add: init_F1EloRating_def)
  show ?thesis
    using two_equal_competitors [OF h1 h2 h3] h1 h2 h3 unfolding k by simp
qed

text \<open>
  Claim C2 as stated fails: from the empty snapshot with the defaults (1500, \<open>K = 24\<close>), the
  event "A first, B second" leaves A at 1512 and B at a rating different from 1488, in both
  implementations.
\<close>

theorem second_place_not_1488:
  "\<exists>x. update_ratings init_F1EloRating race_AB
         = Inr \<lparr>ratings = [(''A'', Fin 1512), (''B'', Fin x)], initial_rating = 1500, k_factor = 24\<rparr>
     \<and> update_ratings_elo init_F1EloRating race_AB
         = Inr \<lparr>ratings = [(''A'', Fin 1512), (''B'', Fin x)], initial_rating = 1500, k_factor = 24\<rparr>
     \<and> x \<noteq> 1488"
  using race_AB_result race_AB_result_elo loser_above_1488 by fastforce

subsection \<open>The position score\<close>







lemma dropna_race_BAC: "dropna race_BAC = [(''B'', 2), (''A'', 1), (''C'', 3)]"
  by (simp add: race_BAC_def row_of_def)


text \<open>
  \<^verbatim>\<open>elo.py\<close> clamps: for a field of at least two, the score of any recorded position is the
  linear score of the clamped position and lies between 0 and 1.
\<close>

lemma normalize_race_position_range:
  assumes "2 \<le> n"
  shows "\<exists>s. normalize_race_position p n = Inr s
           \<and> s = linear_score (max 1 (min p (int n))) n \<and> 0 \<le> s \<and> s \<le> 1"
proof -
  define q where "q = max 1 (min p (int n))"
  have q: "1 \<le> q" "q \<le> int n" using assms by (auto simp: q_def)
  have n: "0 < real n - 1" using assms by simp
  have "0 \<le> (real_of_int q - 1) / (real n - 1)" using q n by simp
  moreover have "(real_of_int q - 1) / (real n - 1) \<le> 1"
    using q n by (simp add: field_simps)
  ultimately show ?thesis
    using assms
    by (simp add: normalize_race_position_def Let_def linear_score_def q_def [symmetric])
qed

text \<open>
  \<^verbatim>\<open>elo_calculator.py\<close> gives the same score as long as the position lies within the field.
\<close>

lemma actual_score_in_range:
  assumes "2 \<le> n" and "1 \<le> p" and "p \<le> int n"
  shows "\<exists>s. actual_score p n = Inr s \<and> s = linear_score (max 1 (min p (int n))) n
           \<and> 0 \<le> s \<and> s \<le> 1"
proof -
  have "actual_score p n = normalize_race_position p n"
    using assms by (simp add: actual_score_def normalize_race_position_def Let_def max_def min_def)
  then show ?thesis using normalize_race_position_range [OF assms(1), of p] by simp
qed

text \<open>
  In \<^verbatim>\<open>elo_calculator.py\<close> every position beyond the field gets a negative score.
\<close>

lemma actual_score_beyond_field:
  assumes "2 \<le> n" and "int n < p"
  shows "\<exists>s. actual_score p n = Inr s \<and> s < 0"
proof -
  have "real n - 1 < real_of_int p - 1" using assms(2) by simp
  moreover have "0 < real n - 1" using assms(1) by simp
  ultimately have "1 < (real_of_int p - 1) / (real n - 1)" by simp
  then show ?thesis using assms(1) by (simp add: actual_score_def)
qed

lemmas eval_defs2 = eval_defs race_AA_def race_A1_B3_def

text \<open>
  Claim C4 at a position beyond the field.  In \<open>race_A1_B3\<close> two rows survive \<open>dropna\<close>, so
  \<open>N = 2\<close>, and B is recorded at position 3.  \<^verbatim>\<open>normalize_race_position\<close> of \<^verbatim>\<open>elo.py\<close> clamps
  and scores B with 0; the inline formula of \<^verbatim>\<open>elo_calculator.py\<close> does not clamp and scores
  B with \<open>-1\<close>, outside \<open>[0, 1]\<close>: B loses 24 rating points more than in \<^verbatim>\<open>elo.py\<close>.
\<close>

theorem position_beyond_field_not_clamped:
  "dropna race_A1_B3 = [(''A'', 1), (''B'', 3)]
   \<and> actual_score 3 2 = Inr (- 1)
   \<and> normalize_race_position 3 2 = Inr 0
   \<and> update_ratings init_F1EloRating race_A1_B3
       = Inr \<lparr>ratings = [(''A'', Fin 1512), (''B'', Fin (1476 - 24 / (1 + 10 powr (3 / 100))))],
              initial_rating = 1500, k_factor = 24\<rparr>
   \<and> update_ratings_elo init_F1EloRating race_A1_B3
       = Inr \<lparr>ratings = [(''A'', Fin 1512), (''B'', Fin (1500 - 24 / (1 + 10 powr (3 / 100))))],
              initial_rating = 1500, k_factor = 24\<rparr>"
  by (simp add: eval_defs2)

subsection \<open>Events that are skipped\<close>

text \<open>
  An event with fewer than two valid rows is skipped: the engine is returned as it was.
\<close>

lemma too_few_rows_noop:
  assumes "length (dropna ev) < 2"
  shows "update_ratings self ev = Inr self" and "update_ratings_elo self ev = Inr self"
  using assms by (simp_all add: update_ratings_def update_ratings_elo_def Let_def)

text \<open>
  Claim C3 at an event with two valid rows but a single competitor.  The guard counts rows,
  so the event is not skipped: \<^verbatim>\<open>elo_calculator.py\<close> enters the driver and overwrites the
  rating with \<open>NaN\<close> (the mean of an empty list of opponents); \<^verbatim>\<open>elo.py\<close> raises
  \<^verbatim>\<open>ZeroDivisionError\<close>.  Neither returns the snapshot unchanged.
\<close>

theorem duplicate_driver_event_not_skipped:
  "length (dropna race_AA) = 2 \<and> card (fst ` set (dropna race_AA)) = 1
   \<and> update_ratings init_F1EloRating race_AA
       = Inr \<lparr>ratings = [(''A'', NaN)], initial_rating = 1500, k_factor = 24\<rparr>
   \<and> update_ratings_elo init_F1EloRating race_AA = Inl ZeroDivisionError
   \<and> update_ratings init_F1EloRating race_AA \<noteq> Inr init_F1EloRating
   \<and> update_ratings_elo init_F1EloRating race_AA \<noteq> Inr init_F1EloRating"
  by (simp add: eval_defs2)

lemma lift2_NaN_right: "lift2 f x NaN = NaN"
  by (cases x) simp_all

lemma step3_rating_no_opponents: "step3_rating K n R d p [] = NaN"
  by (simp add: step3_rating_def np_mean_def rating_change_def lift2_NaN_right)

lemma single_driver_opponents:
  assumes "fst ` set rr = {d}" and "r \<in> set rr"
  shows "fst r = d" and "opponents_of (fst r) rr = []"
proof -
  show d: "fst r = d" using assms by auto
  have "\<And>x. x \<in> set rr \<Longrightarrow> fst x = d" using assms(1) by auto
  then show "opponents_of (fst r) rr = []"
    unfolding opponents_of_def d by (simp add: filter_empty_conv)
qed

lemma single_driver_loop:
  assumes "fst ` set rr = {d}" and "d \<in> fst ` set m" and "2 \<le> length rr"
    and "set rows \<subseteq> set rr" and "rows \<noteq> []"
  shows "\<exists>m'. for_loop (update_row K rr) rows m = Inr m' \<and> rating_in m' d = NaN"
  using assms(2,4,5)
proof (induction rows arbitrary: m)
  case Nil
  then show ?case by simp
next
  case (Cons r rows)
  have r: "r \<in> set rr" using Cons.prems(2) by simp
  have keys: "fst ` set rr \<subseteq> fst ` set m" using assms(1) Cons.prems(1) by simp
  let ?m1 = "AList.update d NaN m"
  have fd: "fst r = d" by (rule single_driver_opponents(1) [OF assms(1) r])
  have od: "opponents_of d rr = []"
    using single_driver_opponents(2) [OF assms(1) r] by (simp add: fd)
  have step: "update_row K rr m r = Inr ?m1"
    using update_row_ok [OF keys assms(3) r, of K]
    by (simp add: fd od step3_rating_no_opponents)
  have d1: "d \<in> fst ` set ?m1" by (simp add: dom_update)
  show ?case
  proof (cases "rows = []")
    case True
    then show ?thesis using step by (simp add: rating_in_update)
  next
    case False
    have "set rows \<subseteq> set rr" using Cons.prems(2) by simp
    from Cons.IH [OF d1 this False] show ?thesis using step by simp
  qed
qed

text \<open>
  The same for every event with at least two valid rows that all name one driver \<open>d\<close>:
  \<^verbatim>\<open>elo.py\<close> raises \<^verbatim>\<open>ZeroDivisionError\<close>, and \<^verbatim>\<open>elo_calculator.py\<close> leaves \<open>d\<close> with the rating
  \<open>NaN\<close>.
\<close>

lemma single_driver_event:
  assumes len: "2 \<le> length (dropna ev)" and one: "fst ` set (dropna ev) = {d}"
  shows "update_ratings_elo self ev = Inl ZeroDivisionError"
    and "\<exists>self'. update_ratings self ev = Inr self' \<and> rating_in (ratings self') d = NaN"
proof -
  define rr where "rr = dropna ev"
  define m0 where "m0 = init_drivers (initial_rating self) (unique (map fst rr)) (ratings self)"
  have n2: "2 \<le> length rr" using len by (simp add: rr_def)
  have one': "fst ` set rr = {d}" using one by (simp add: rr_def)
  have keys0: "fst ` set rr \<subseteq> fst ` set m0"
    by (auto simp: m0_def keys_init_drivers)
  have d0: "d \<in> fst ` set m0" using keys0 one' by simp
  obtain r rest where rr: "rr = r # rest" using n2 by (cases rr) simp_all
  have r: "r \<in> set rr" by (simp add: rr)
  have "update_row_elo (k_factor self) (initial_rating self) rr m0 r = Inl ZeroDivisionError"
    by (rule update_row_elo_empty [OF keys0 n2 r single_driver_opponents(2) [OF one' r]])
  then have "for_loop (update_row_elo (k_factor self) (initial_rating self) rr) rr m0
               = Inl ZeroDivisionError"
    by (subst (2) rr) simp
  then show "update_ratings_elo self ev = Inl ZeroDivisionError"
    by (simp add: update_ratings_elo_unfold [OF len] rr_def [symmetric] m0_def [symmetric])
  have ne: "rr \<noteq> []" by (simp add: rr)
  obtain m' where "for_loop (update_row (k_factor self) rr) rr m0 = Inr m'" "rating_in m' d = NaN"
    using single_driver_loop [OF one' d0 n2 subset_refl ne] by blast
  then show "\<exists>self'. update_ratings self ev = Inr self' \<and> rating_in (ratings self') d = NaN"
    by (simp add: update_ratings_unfold [OF len] rr_def [symmetric] m0_def [symmetric])
qed

subsection \<open>The rating store\<close>

lemma set_insert_or_replace:
  "(d, v) \<in> set (insert_or_replace k r u db)
     \<longleftrightarrow> (if d = k then v = (r, u) else (d, v) \<in> set db)"
  by (auto simp: insert_or_replace_def)

lemma distinct_insert_or_replace:
  "distinct (map fst db) \<Longrightarrow> distinct (map fst (insert_or_replace k r u db))"
  by (auto simp: insert_or_replace_def distinct_map_filter)

lemma save_ratings_Cons:
  "save_ratings db (row # df) t = save_ratings (insert_or_replace (fst row) (snd row) (Some t) db) df t"
  by (simp add: save_ratings_def)

text \<open>
  The rows of a driver after \<open>save_ratings\<close>: the stored rows of the driver when the frame does
  not name it, otherwise the one row holding the driver's last rating in the frame and the
  time of this write.
\<close>

lemma save_ratings_rows:
  "(d, v) \<in> set (save_ratings db df t)
     \<longleftrightarrow> (case map_of (rev df) d of None \<Rightarrow> (d, v) \<in> set db | Some r \<Rightarrow> v = (r, Some t))"
proof (induction df arbitrary: db)
  case Nil
  then show ?case by (simp add: save_ratings_def)
next
  case (Cons row df)
  obtain k r0 where row: "row = (k, r0)" by (cases row)
  show ?case
    unfolding save_ratings_Cons Cons.IH
    by (simp add: row map_of_append set_insert_or_replace map_add_def split: option.splits)
qed

lemma distinct_save_ratings:
  "distinct (map fst db) \<Longrightarrow> distinct (map fst (save_ratings db df t))"
  by (induction df arbitrary: db) (simp_all add: save_ratings_def distinct_insert_or_replace)

lemma last_value_distinct:
  assumes "distinct (map fst df)" and "(d, r) \<in> set df"
  shows "map_of (rev df) d = Some r"
proof -
  have "distinct (map fst (rev df))" using assms(1) by (simp add: rev_map [symmetric])
  moreover have "(d, r) \<in> set (rev df)" using assms(2) by simp
  ultimately show ?thesis by (rule map_of_is_SomeI)
qed

text \<open>
  Claim C7.  After \<open>save_ratings db df t\<close>, for every prior table \<open>db\<close>, frame \<open>df\<close> and time
  \<open>t\<close>: every driver named in the frame has exactly one row, and it carries \<open>t\<close>, the one time
  stamp shared by all rows of the write; when the frame names each driver once (as a frame
  built from a dict does), that row holds the driver's rating from the frame; the rows of
  every driver the frame does not name are exactly the rows it had before (nothing is
  deleted, nothing is changed); and the primary key stays unique.
\<close>

theorem save_ratings_upsert:
  "(\<forall>d\<in>fst ` set df. \<exists>r. \<forall>v. (d, v) \<in> set (save_ratings db df t) \<longleftrightarrow> v = (r, Some t))
   \<and> (distinct (map fst df) \<longrightarrow>
        (\<forall>row\<in>set df. \<forall>v. (fst row, v) \<in> set (save_ratings db df t) \<longleftrightarrow> v = (snd row, Some t)))
   \<and> (\<forall>d v. d \<notin> fst ` set df \<longrightarrow> ((d, v) \<in> set (save_ratings db df t) \<longleftrightarrow> (d, v) \<in> set db))
   \<and> (distinct (map fst db) \<longrightarrow> distinct (map fst (save_ratings db df t)))"
proof (intro conjI ballI allI impI)
  fix d assume "d \<in> fst ` set df"
  then have "d \<in> fst ` set (rev df)" by simp
  then obtain r where "map_of (rev df) d = Some r"
    by (metis domD dom_map_of_conv_image_fst)
  then show "\<exists>r. \<forall>v. (d, v) \<in> set (save_ratings db df t) \<longleftrightarrow> v = (r, Some t)"
    by (auto simp: save_ratings_rows)
next
  fix row v assume "distinct (map fst df)" and "row \<in> set df"
  then have "map_of (rev df) (fst row) = Some (snd row)"
    using last_value_distinct [of df "fst row" "snd row"] by simp
  then show "(fst row, v) \<in> set (save_ratings db df t) \<longleftrightarrow> v = (snd row, Some t)"
    by (simp add: save_ratings_rows)
next
  fix d v assume "d \<notin> fst ` set df"
  then have "d \<notin> fst ` set (rev df)" by simp
  then have "map_of (rev df) d = None"
    by (metis map_of_eq_None_iff)
  then show "(d, v) \<in> set (save_ratings db df t) \<longleftrightarrow> (d, v) \<in> set db"
    by (simp add: save_ratings_rows)
next
  assume "distinct (map fst db)"
  then show "distinct (map fst (save_ratings db df t))" by (rule distinct_save_ratings)
qed

lemma save_store_AB:
  "save_ratings store_AB frame_BC ''2024-02-01T09:00:00''
     = [(''A'', Fin 1500, Some ''2024-01-01T10:00:00''),
        (''C'', Fin 1530, Some ''2024-02-01T09:00:00''),
        (''B'', Fin 1470, Some ''2024-02-01T09:00:00'')]"
  by (simp add: save_ratings_def insert_or_replace_def store_AB_def frame_BC_def)

text \<open>
  The theorem for claim C7 at the store \<open>store_AB\<close> and the frame \<open>frame_BC\<close>: B is replaced and
  stamped with the new time, A is untouched.
\<close>

theorem save_ratings_upsert_witness:
  "distinct (map fst frame_BC) \<and> distinct (map fst store_AB)
   \<and> (''B'', Fin 1470) \<in> set frame_BC \<and> ''A'' \<notin> fst ` set frame_BC
   \<and> (''B'', Fin 1470, Some ''2024-02-01T09:00:00'')
        \<in> set (save_ratings store_AB frame_BC ''2024-02-01T09:00:00'')
   \<and> (''B'', Fin 1490, Some ''2024-01-01T10:00:00'')
        \<notin> set (save_ratings store_AB frame_BC ''2024-02-01T09:00:00'')
   \<and> (''A'', Fin 1500, Some ''2024-01-01T10:00:00'')
        \<in> set (save_ratings store_AB frame_BC ''2024-02-01T09:00:00'')
   \<and> distinct (map fst (save_ratings store_AB frame_BC ''2024-02-01T09:00:00''))"
proof -
  have h1: "distinct (map fst frame_BC)" by (simp add: frame_BC_def)
  have h2: "distinct (map fst store_AB)" by (simp add: store_AB_def)
  have h3: "(''B'', Fin 1470) \<in> set frame_BC" by (simp add: frame_BC_def)
  have h4: "''A'' \<notin> fst ` set frame_BC" by (simp add: frame_BC_def)
  have h5: "(''A'', Fin 1500, Some ''2024-01-01T10:00:00'') \<in> set store_AB"
    by (simp add: store_AB_def)
  note inst = save_ratings_upsert [of frame_BC store_AB "''2024-02-01T09:00:00''"]
  from inst h1 h3 have a: "\<forall>v. (''B'', v) \<in> set (save_ratings store_AB frame_BC ''2024-02-01T09:00:00'')
        \<longleftrightarrow> v = (Fin 1470, Some ''2024-02-01T09:00:00'')"
    by fastforce
  from inst h4 h5 have b: "(''A'', Fin 1500, Some ''2024-01-01T10:00:00'')
        \<in> set (save_ratings store_AB frame_BC ''2024-02-01T09:00:00'')"
    by blast
  from inst h2 have c: "distinct (map fst (save_ratings store_AB frame_BC ''2024-02-01T09:00:00''))"
    by blast
  show ?thesis using h1 h2 h3 h4 a b c by simp
qed

text \<open>
  On a store without rows, \<^verbatim>\<open>get_ratings\<close> fetches nothing and the engine starts from the empty
  snapshot (whatever the engine's order is, it orders no rows).
\<close>

lemma load_existing_empty_store:
  assumes "order_by [] = []"
  shows "get_ratings order_by [] = []" and "load_existing order_by [] = init_F1EloRating"
  using assms by (simp_all add: get_ratings_def load_existing_def)

lemma last_update_time_after_save:
  "get_last_update_time [(''A'', Fin 1500, Some ''2024-01-01T10:00:00'')] = Some ''2024-01-01T10:00:00''"
  by (simp add: get_last_update_time_def fetchone_def select_max_last_updated_def)

text \<open>
  Claim C8 at the empty store.  The aggregate query returns one row holding \<^verbatim>\<open>NULL\<close>; the row
  is a non-empty tuple, hence true, so \<^verbatim>\<open>get_last_update_time\<close> returns its first column,
  Python's \<^verbatim>\<open>None\<close>, and the \<^verbatim>\<open>"Never"\<close> branch is not taken.
\<close>

theorem last_update_time_of_empty_store:
  "select_max_last_updated [] = [[None]]
   \<and> fetchone (select_max_last_updated []) = Some [None]
   \<and> get_last_update_time [] = None
   \<and> get_last_update_time [] \<noteq> Some ''Never''"
  by (simp add: get_last_update_time_def fetchone_def select_max_last_updated_def)

subsection \<open>No division by zero\<close>

lemma set_update_cases:
  "(k', v') \<in> set (AList.update k v m) \<Longrightarrow> (k', v') = (k, v) \<or> (k', v') \<in> set m"
  by (induction m) (auto split: if_splits)

lemma all_finite_update: "all_finite m \<Longrightarrow> v \<noteq> NaN \<Longrightarrow> all_finite (AList.update k v m)"
  unfolding all_finite_def using set_update_cases [of _ NaN k v m] by force

lemma all_finite_init_drivers: "all_finite m \<Longrightarrow> all_finite (init_drivers ir ds m)"
  by (induction ds arbitrary: m) (simp_all add: all_finite_update)

lemma all_finite_rating_in:
  assumes "all_finite m" and "k \<in> fst ` set m"
  shows "rating_in m k \<noteq> NaN"
proof -
  obtain v where v: "map_of m k = Some v"
    using assms(2) by (metis domD dom_map_of_conv_image_fst)
  then have "(k, v) \<in> set m" by (rule map_of_SomeD)
  then have "v \<noteq> NaN" using assms(1) by (force simp: all_finite_def)
  then show ?thesis using v by (simp add: rating_in_def get_default_def)
qed

lemma fsum_finite: "NaN \<notin> set xs \<Longrightarrow> fsum xs \<noteq> NaN"
proof (induction xs)
  case Nil
  then show ?case by simp
next
  case (Cons x xs)
  then obtain a b where "x = Fin a" "fsum xs = Fin b"
    by (metis pyfloat.exhaust list.set_intros(1,2))
  then show ?case by simp
qed

lemma win_probability_finite: "a \<noteq> NaN \<Longrightarrow> b \<noteq> NaN \<Longrightarrow> win_probability a b \<noteq> NaN"
  by (cases a; cases b) simp_all

lemma step3_rating_finite:
  assumes "R d \<noteq> NaN" and "\<And>k. k \<in> set opps \<Longrightarrow> R k \<noteq> NaN" and "opps \<noteq> []"
  shows "step3_rating K n R d p opps \<noteq> NaN"
proof -
  let ?es = "map (\<lambda>opp. win_probability (R opp) (R d)) opps"
  have "NaN \<notin> set ?es"
    using assms(1,2) by (auto dest: win_probability_finite [OF _ assms(1)] simp: eq_commute)
      (metis assms(1) win_probability_finite)
  then obtain s where s: "fsum ?es = Fin s"
    using fsum_finite by (metis pyfloat.exhaust)
  obtain r where r: "R d = Fin r" using assms(1) by (cases "R d") simp_all
  show ?thesis
    using assms(3) by (simp add: step3_rating_def np_mean_def rating_change_def s [unfolded r] r)
qed

lemma opponents_nonempty:
  assumes "2 \<le> card (fst ` set rr)" and "r \<in> set rr"
  shows "opponents_of (fst r) rr \<noteq> []"
proof -
  have "\<not> fst ` set rr \<subseteq> {fst r}"
  proof
    assume "fst ` set rr \<subseteq> {fst r}"
    then have "card (fst ` set rr) \<le> card {fst r}" by (intro card_mono) simp_all
    then show False using assms(1) by simp
  qed
  then obtain r' where "r' \<in> set rr" "fst r' \<noteq> fst r" by auto
  then have "r' \<in> set (filter (\<lambda>opp. fst opp \<noteq> fst r) rr)" by simp
  then show ?thesis unfolding opponents_of_def by (metis empty_iff list.map_disc_iff list.set(1))
qed

lemma set_opponents_of: "set (opponents_of d rr) \<subseteq> fst ` set rr"
  by (auto simp: opponents_of_def)

lemma for_loop_rows_finite:
  assumes "fst ` set rr \<subseteq> fst ` set m" and "2 \<le> length rr" and "set rows \<subseteq> set rr"
    and "\<And>r. r \<in> set rr \<Longrightarrow> opponents_of (fst r) rr \<noteq> []" and "all_finite m"
  shows "\<exists>m'. for_loop (update_row K rr) rows m = Inr m' \<and> all_finite m'"
  using assms(1,3,5)
proof (induction rows arbitrary: m)
  case Nil
  then show ?case by simp
next
  case (Cons r rows)
  let ?v = "step3_rating K (length rr) (rating_in m) (fst r) (py_int (snd r))
              (opponents_of (fst r) rr)"
  let ?m1 = "AList.update (fst r) ?v m"
  have r: "r \<in> set rr" using Cons.prems(2) by simp
  have step: "update_row K rr m r = Inr ?m1"
    by (rule update_row_ok [OF Cons.prems(1) assms(2) r])
  have d: "fst r \<in> fst ` set m" using Cons.prems(1) r by auto
  have "?v \<noteq> NaN"
  proof (rule step3_rating_finite)
    show "rating_in m (fst r) \<noteq> NaN" by (rule all_finite_rating_in [OF Cons.prems(3) d])
    show "rating_in m k \<noteq> NaN" if "k \<in> set (opponents_of (fst r) rr)" for k
      using that set_opponents_of [of "fst r" rr] Cons.prems(1)
      by (intro all_finite_rating_in [OF Cons.prems(3)]) auto
    show "opponents_of (fst r) rr \<noteq> []" by (rule assms(4) [OF r])
  qed
  then have f1: "all_finite ?m1" using Cons.prems(3) by (simp add: all_finite_update)
  have k1: "fst ` set rr \<subseteq> fst ` set ?m1"
    using Cons.prems(1) by (auto simp: dom_update)
  have "set rows \<subseteq> set rr" using Cons.prems(2) by simp
  from Cons.IH [OF k1 this f1] show ?case using step by simp
qed

lemma for_loop_rows_elo:
  assumes "fst ` set rr \<subseteq> fst ` set m" and "2 \<le> length rr" and "set rows \<subseteq> set rr"
    and "\<And>r. r \<in> set rr \<Longrightarrow> opponents_of (fst r) rr \<noteq> []"
  shows "\<exists>m'. for_loop (update_row_elo K ir rr) rows m = Inr m' \<and> fst ` set m' = fst ` set m
           \<and> (all_finite m \<longrightarrow> all_finite m')"
  using assms(1,3)
proof (induction rows arbitrary: m)
  case Nil
  then show ?case by simp
next
  case (Cons r rows)
  let ?v = "step3_rating K (length rr) (rating_in m) (fst r)
              (max 1 (min (py_int (snd r)) (int (length rr)))) (opponents_of (fst r) rr)"
  let ?m1 = "AList.update (fst r) ?v m"
  have r: "r \<in> set rr" using Cons.prems(2) by simp
  have step: "update_row_elo K ir rr m r = Inr ?m1"
    by (rule update_row_elo_ok [OF Cons.prems(1) assms(2) r assms(4) [OF r]])
  have d: "fst r \<in> fst ` set m" using Cons.prems(1) r by auto
  have fin: "?v \<noteq> NaN" if af: "all_finite m"
  proof (rule step3_rating_finite)
    show "rating_in m (fst r) \<noteq> NaN" by (rule all_finite_rating_in [OF af d])
    show "rating_in m k \<noteq> NaN" if "k \<in> set (opponents_of (fst r) rr)" for k
      using that set_opponents_of [of "fst r" rr] Cons.prems(1)
      by (intro all_finite_rating_in [OF af]) auto
    show "opponents_of (fst r) rr \<noteq> []" by (rule assms(4) [OF r])
  qed
  have f1: "all_finite m \<longrightarrow> all_finite ?m1" using fin by (simp add: all_finite_update)
  have k1: "fst ` set ?m1 = fst ` set m" by (rule keys_update_present [OF d])
  have k1': "fst ` set rr \<subseteq> fst ` set ?m1" using Cons.prems(1) k1 by simp
  have "set rows \<subseteq> set rr" using Cons.prems(2) by simp
  from Cons.IH [OF k1' this] show ?case using step k1 f1 by auto
qed

text \<open>
  Claim C10.  Let an event keep at least two rows after \<open>dropna\<close>, with at least two distinct
  drivers among them.  Then the divisor \<open>N - 1\<close> of the score formula is positive, every row
  has a non-empty list of opponents, neither score function raises \<^verbatim>\<open>ZeroDivisionError\<close>, and
  both implementations of \<open>update_ratings\<close> return normally (no \<^verbatim>\<open>ZeroDivisionError\<close>, no
  \<^verbatim>\<open>KeyError\<close>); no mean of an empty list is taken, so if no stored rating was \<open>NaN\<close> before the
  event, none is afterwards.
\<close>

theorem no_division_by_zero:
  assumes len: "2 \<le> length (dropna ev)" and two: "2 \<le> card (fst ` set (dropna ev))"
  shows "0 < int (length (dropna ev)) - 1
    \<and> (\<forall>r\<in>set (dropna ev).
          opponents_of (fst r) (dropna ev) \<noteq> []
        \<and> actual_score (py_int (snd r)) (length (dropna ev)) \<noteq> Inl ZeroDivisionError
        \<and> normalize_race_position (py_int (snd r)) (length (dropna ev)) \<noteq> Inl ZeroDivisionError)
    \<and> (\<exists>self'. update_ratings self ev = Inr self'
          \<and> (all_finite (ratings self) \<longrightarrow> all_finite (ratings self')))
    \<and> (\<exists>self'. update_ratings_elo self ev = Inr self'
          \<and> (all_finite (ratings self) \<longrightarrow> all_finite (ratings self')))"
proof -
  define rr where "rr = dropna ev"
  define m0 where "m0 = init_drivers (initial_rating self) (unique (map fst rr)) (ratings self)"
  have n2: "2 \<le> length rr" using len by (simp add: rr_def)
  have c2: "2 \<le> card (fst ` set rr)" using two by (simp add: rr_def)
  have opp: "\<And>r. r \<in> set rr \<Longrightarrow> opponents_of (fst r) rr \<noteq> []"
    by (rule opponents_nonempty [OF c2])
  have keys0: "fst ` set rr \<subseteq> fst ` set m0"
    by (auto simp: m0_def keys_init_drivers)
  have fin0: "all_finite (ratings self) \<Longrightarrow> all_finite m0"
    by (simp add: m0_def all_finite_init_drivers)
  have a: "0 < int (length rr) - 1" using n2 by simp
  have b: "\<forall>r\<in>set rr. opponents_of (fst r) rr \<noteq> []
        \<and> actual_score (py_int (snd r)) (length rr) \<noteq> Inl ZeroDivisionError
        \<and> normalize_race_position (py_int (snd r)) (length rr) \<noteq> Inl ZeroDivisionError"
    using opp n2 by (simp add: actual_score_def normalize_race_position_def Let_def)
  obtain m1 where m1: "for_loop (update_row (k_factor self) rr) rr m0 = Inr m1"
    using for_loop_rows [OF keys0 n2 subset_refl] by blast
  have m1_fin: "all_finite m1" if "all_finite (ratings self)"
    using for_loop_rows_finite [OF keys0 n2 subset_refl opp fin0 [OF that], of "k_factor self"] m1
    by simp
  have c: "\<exists>self'. update_ratings self ev = Inr self'
          \<and> (all_finite (ratings self) \<longrightarrow> all_finite (ratings self'))"
    using m1 m1_fin
    by (simp add: update_ratings_unfold [OF len] rr_def [symmetric] m0_def [symmetric])
  obtain m2 where m2: "for_loop (update_row_elo (k_factor self) (initial_rating self) rr) rr m0 = Inr m2"
      "all_finite m0 \<longrightarrow> all_finite m2"
    using for_loop_rows_elo [OF keys0 n2 subset_refl opp] by blast
  have d: "\<exists>self'. update_ratings_elo self ev = Inr self'
          \<and> (all_finite (ratings self) \<longrightarrow> all_finite (ratings self'))"
    using m2 fin0
    by (simp add: update_ratings_elo_unfold [OF len] rr_def [symmetric] m0_def [symmetric])
  show ?thesis using a b c d unfolding rr_def by blast
qed

text \<open>
  The hypotheses of the theorem for claim C10 hold for the event \<open>race_AB\<close> and the default
  engine.
\<close>

theorem no_division_by_zero_witness:
  "2 \<le> length (dropna race_AB) \<and> 2 \<le> card (fst ` set (dropna race_AB))
   \<and> all_finite (ratings init_F1EloRating)
   \<and> (\<exists>self'. update_ratings init_F1EloRating race_AB = Inr self' \<and> all_finite (ratings self'))
   \<and> (\<exists>self'. update_ratings_elo init_F1EloRating race_AB = Inr self' \<and> all_finite (ratings self'))"
proof -
  have h1: "2 \<le> length (dropna race_AB)" by (simp add: dropna_race_AB)
  have h2: "2 \<le> card (fst ` set (dropna race_AB))" by (simp add: dropna_race_AB)
  have h3: "all_finite (ratings init_F1EloRating)"
    by (simp add: all_finite_def init_F1EloRating_def)
  show ?thesis
    using no_division_by_zero [OF h1 h2, of init_F1EloRating] h1 h2 h3 by blast
qed

subsection \<open>The competitors of a snapshot\<close>

text \<open>
  One call of \<open>update_ratings\<close> (\<^verbatim>\<open>elo_calculator.py\<close>) always returns; it adds the drivers of
  the event to the keys when the event has at least two valid rows, and changes no key
  otherwise.
\<close>

lemma update_ratings_keys:
  "\<exists>self'. update_ratings self ev = Inr self'
     \<and> fst ` set (ratings self') =
         fst ` set (ratings self) \<union> (if 2 \<le> length (dropna ev) then fst ` set (dropna ev) else {})"
proof (cases "2 \<le> length (dropna ev)")
  case False
  then show ?thesis by (simp add: update_ratings_def Let_def)
next
  case True
  define rr where "rr = dropna ev"
  define m0 where "m0 = init_drivers (initial_rating self) (unique (map fst rr)) (ratings self)"
  have n2: "2 \<le> length rr" using True by (simp add: rr_def)
  have keys0: "fst ` set m0 = fst ` set (ratings self) \<union> fst ` set rr"
    by (simp add: m0_def keys_init_drivers)
  then have sub: "fst ` set rr \<subseteq> fst ` set m0" by simp
  obtain m1 where m1: "for_loop (update_row (k_factor self) rr) rr m0 = Inr m1"
      "fst ` set m1 = fst ` set m0"
    using for_loop_rows [OF sub n2 subset_refl] by blast
  show ?thesis
    using m1 keys0 True
    by (simp add: update_ratings_unfold [OF True] rr_def [symmetric] m0_def [symmetric])
qed

lemma process_races_keys:
  "\<exists>self'. process_races self evs = Inr self'
     \<and> fst ` set (ratings self') =
         fst ` set (ratings self)
           \<union> (\<Union>ev\<in>set (filter (\<lambda>ev. 2 \<le> length (dropna ev)) evs). fst ` set (dropna ev))"
proof (induction evs arbitrary: self)
  case Nil
  then show ?case by (simp add: process_races_def)
next
  case (Cons ev evs)
  obtain s1 where s1: "update_ratings self ev = Inr s1"
      "fst ` set (ratings s1) =
         fst ` set (ratings self) \<union> (if 2 \<le> length (dropna ev) then fst ` set (dropna ev) else {})"
    using update_ratings_keys [of self ev] by blast
  obtain s2 where s2: "process_races s1 evs = Inr s2"
      "fst ` set (ratings s2) =
         fst ` set (ratings s1)
           \<union> (\<Union>ev\<in>set (filter (\<lambda>ev. 2 \<le> length (dropna ev)) evs). fst ` set (dropna ev))"
    using Cons.IH [of s1] by blast
  have "process_races self (ev # evs) = Inr s2"
    using s1(1) s2(1) by (simp add: process_races_def)
  then show ?case using s1(2) s2(2) by auto
qed

lemma process_races_append:
  "process_races self (evs @ later_evs) =
     (case process_races self evs of Inl e \<Rightarrow> Inl e | Inr s \<Rightarrow> process_races s later_evs)"
  unfolding process_races_def by (rule for_loop_append)

text \<open>
  Claim C9.  From an engine with an empty snapshot, every sequence of events is processed
  without an exception, and the keys of the resulting snapshot are exactly the drivers of the
  valid rows of the events that were not skipped (those with at least two valid rows).
  Whatever events are processed afterwards, every key stays in the snapshot.
\<close>

theorem snapshot_keys:
  assumes "ratings self = []"
  shows "\<exists>self'. process_races self evs = Inr self'
     \<and> fst ` set (ratings self') =
          (\<Union>ev\<in>set (filter (\<lambda>ev. 2 \<le> length (dropna ev)) evs). fst ` set (dropna ev))
     \<and> (\<forall>later_evs. \<exists>self''. process_races self (evs @ later_evs) = Inr self''
            \<and> fst ` set (ratings self') \<subseteq> fst ` set (ratings self''))"
proof -
  obtain s where s: "process_races self evs = Inr s"
      "fst ` set (ratings s) =
         fst ` set (ratings self)
           \<union> (\<Union>ev\<in>set (filter (\<lambda>ev. 2 \<le> length (dropna ev)) evs). fst ` set (dropna ev))"
    using process_races_keys [of self evs] by blast
  have later: "\<exists>s'. process_races self (evs @ later_evs) = Inr s'
            \<and> fst ` set (ratings s) \<subseteq> fst ` set (ratings s')" for later_evs
  proof -
    obtain s' where "process_races s later_evs = Inr s'"
      "fst ` set (ratings s') =
         fst ` set (ratings s)
           \<union> (\<Union>ev\<in>set (filter (\<lambda>ev. 2 \<le> length (dropna ev)) later_evs). fst ` set (dropna ev))"
      using process_races_keys [of s later_evs] by blast
    then show ?thesis using s(1) by (auto simp: process_races_append)
  qed
  show ?thesis using s later assms by auto
qed

lemma dropna_race_D: "dropna race_D = [(''D'', 1)]"
  by (simp add: race_D_def row_of_def)

text \<open>
  The hypothesis of the theorem for claim C9 holds for the default engine; after the three
  events of \<open>season\<close>, the second of which is skipped, the snapshot holds A, B and C and not D.
\<close>

theorem snapshot_keys_witness:
  "ratings init_F1EloRating = []
   \<and> (\<exists>self'. process_races init_F1EloRating season = Inr self'
         \<and> fst ` set (ratings self') = {''A'', ''B'', ''C''})"
proof -
  have h: "ratings init_F1EloRating = []" by (simp add: init_F1EloRating_def)
  have "(\<Union>ev\<in>set (filter (\<lambda>ev. 2 \<le> length (dropna ev)) season). fst ` set (dropna ev))
          = {''A'', ''B'', ''C''}"
    by (auto simp: season_def dropna_race_AB dropna_race_BAC dropna_race_D)
  then show ?thesis
    using snapshot_keys [OF h, of season] h by auto
qed

subsection \<open>Ranking\<close>

lemma finite_rows_filter:
  "map (\<lambda>row. (fst row, Fin (snd row))) (finite_rows df) = filter (\<lambda>row. snd row \<noteq> NaN) df"
  by (induction df rule: finite_rows.induct) simp_all

lemma finite_rows_notna [simp]: "finite_rows (filter (\<lambda>row. snd row \<noteq> NaN) df) = finite_rows df"
  by (induction df rule: finite_rows.induct) simp_all

lemma nan_rows_notna [simp]: "nan_rows (filter (\<lambda>row. snd row \<noteq> NaN) df) = []"
  by (simp add: nan_rows_def)




text \<open>
  With a stable sorting routine the drivers of one rating keep their insertion order.
\<close>

lemma stable_sort_keeps_ties:
  "filter (\<lambda>row. snd row = Fin r) (get_driver_ratings stable_sort_desc self)
     = filter (\<lambda>row. snd row = Fin r) (ratings self)"
proof -
  have "filter (\<lambda>row. snd row = r) (stable_sort_desc xs) = filter (\<lambda>row. snd row = r) xs" for xs
    by (simp add: stable_sort_desc_def rev_filter [symmetric] sort_key_stable)
  then have "filter (\<lambda>row. snd row = Fin r)
               (map (\<lambda>row. (fst row, Fin (snd row))) (stable_sort_desc (finite_rows (ratings self))))
             = map (\<lambda>row. (fst row, Fin (snd row)))
                 (filter (\<lambda>row. snd row = r) (finite_rows (ratings self)))"
    by (simp add: filter_map comp_def)
  also have "\<dots> = filter (\<lambda>row. snd row = Fin r)
                     (map (\<lambda>row. (fst row, Fin (snd row))) (finite_rows (ratings self)))"
    by (simp add: filter_map comp_def)
  also have "\<dots> = filter (\<lambda>row. snd row = Fin r) (ratings self)"
    by (simp add: finite_rows_filter) (rule filter_cong, auto)
  finally show ?thesis
    by (simp add: get_driver_ratings_def sort_values_def nan_rows_def)
qed




end
